theory Spec2Isabelle
  imports Main "HOL-Library.Word"
begin

section \<open>Bytes, exceptions and the memory map\<close>

text \<open>
  The reader in \<^verbatim>\<open>dcimg.py\<close> works on a copy-on-write memory map of the file
  (\<^verbatim>\<open>mmap.ACCESS_COPY\<close>): reads see the file's bytes, writes through an array view
  change the mapped bytes but not the file. A mapping is a byte list with a flag that
  says whether \<^verbatim>\<open>mm.close()\<close> has been called. Every exception the code can raise is a
  value of \<open>error\<close>, named after its Python class. The texts of exceptions raised
  inside Python or numpy are shortened; the texts of the \<^verbatim>\<open>raise\<close> statements of
  the source are kept.
\<close>

type_synonym byte = "8 word"

datatype error =
    ValueError string
  | RuntimeError string
  | KeyError string
  | TypeError string
  | IndexError string

text \<open>The element types that occur: the two pixel types, and \<^verbatim>\<open>float64\<close>, which
  \<^verbatim>\<open>np.ndarray\<close> takes when it is handed \<^verbatim>\<open>dtype=None\<close>.\<close>

datatype np_dtype = uint8 | uint16 | float64

fun itemsize :: "np_dtype \<Rightarrow> nat" where
  "itemsize uint8 = 1"
| "itemsize uint16 = 2"
| "itemsize float64 = 8"

record mmap =
  buf :: "byte list"
  closed :: bool

text \<open>\<^verbatim>\<open>mm[a:b]\<close> for \<open>0 \<le> a\<close>: a slice never fails on an open mapping, it is cut at
  the end of the buffer; on a closed mapping it raises \<^verbatim>\<open>ValueError\<close>.\<close>

definition mm_slice :: "mmap \<Rightarrow> nat \<Rightarrow> nat \<Rightarrow> error + byte list" where
  "mm_slice m a b =
     (if closed m then Inl (ValueError ''mmap closed or invalid'')
      else Inr (take (b - a) (drop a (buf m))))"

text \<open>\<^verbatim>\<open>int.from_bytes(bs, 'little')\<close>, for a byte string of any length.\<close>

fun from_bytes_little :: "byte list \<Rightarrow> nat" where
  "from_bytes_little [] = 0"
| "from_bytes_little (b # bs) = unat b + 256 * from_bytes_little bs"

text \<open>The fields \<^verbatim>\<open>'<u4'\<close> and \<^verbatim>\<open>'<u8'\<close> of a record, at byte position \<open>k\<close>.\<close>

definition u4 :: "byte list \<Rightarrow> nat \<Rightarrow> 32 word" where
  "u4 s k = word_of_nat (from_bytes_little (take 4 (drop k s)))"

definition u8 :: "byte list \<Rightarrow> nat \<Rightarrow> 64 word" where
  "u8 s k = word_of_nat (from_bytes_little (take 8 (drop k s)))"

text \<open>\<^verbatim>\<open>str(n)\<close> of a non-negative integer.\<close>

fun str_nat :: "nat \<Rightarrow> string" where
  "str_nat n =
     (if n < 10 then [''0123456789'' ! n]
      else str_nat (n div 10) @ [''0123456789'' ! (n mod 10)])"

declare str_nat.simps [simp del]

text \<open>Sequencing: an expression that raises ends the computation. \<open>bind_err\<close> is for
  expressions without effect, \<open>raising\<close> for the statements of a method, which leave
  the handle \<open>self\<close> as it was when the exception went up. A method returns the
  handle as it leaves it, and either the exception (\<open>Inl\<close>) or its value (\<open>Inr\<close>).\<close>

definition bind_err :: "error + 'a \<Rightarrow> ('a \<Rightarrow> error + 'b) \<Rightarrow> error + 'b" where
  "bind_err r k = (case r of Inl e \<Rightarrow> Inl e | Inr x \<Rightarrow> k x)"

definition raising :: "error + 'a \<Rightarrow> 's \<Rightarrow> ('a \<Rightarrow> 's \<times> (error + 'b)) \<Rightarrow> 's \<times> (error + 'b)" where
  "raising r self k = (case r of Inl e \<Rightarrow> (self, Inl e) | Inr x \<Rightarrow> k x)"

section \<open>The two headers\<close>

text \<open>\<^verbatim>\<open>FILE_HDR_DTYPE\<close> (72 bytes) and \<^verbatim>\<open>SESS_HDR_DTYPE\<close> (80 bytes). The field
  names carry a prefix, since both records have \<^verbatim>\<open>nfrms\<close> and \<^verbatim>\<open>header_size\<close> and the
  class has properties of the same names.\<close>

record file_hdr =
  fh_file_format :: "byte list"
  fh_format_version :: "32 word"
  fh_skip :: "32 word list"
  fh_nsess :: "32 word"
  fh_nfrms :: "32 word"
  fh_header_size :: "32 word"
  fh_skip2 :: "32 word"
  fh_file_size :: "64 word"
  fh_skip3 :: "32 word list"
  fh_file_size2 :: "64 word"

record sess_hdr =
  sh_session_size :: "64 word"
  sh_skip1 :: "32 word list"
  sh_nfrms :: "32 word"
  sh_byte_depth :: "32 word"
  sh_skip2 :: "32 word"
  sh_xsize :: "32 word"
  sh_bytes_per_row :: "32 word"
  sh_ysize :: "32 word"
  sh_bytes_per_img :: "32 word"
  sh_skip3 :: "32 word list"
  sh_header_size :: "32 word"
  sh_session_data_size :: "64 word"

definition file_hdr_of :: "byte list \<Rightarrow> file_hdr" where
  "file_hdr_of s =
     \<lparr>fh_file_format = take 8 s,
      fh_format_version = u4 s 8,
      fh_skip = map (\<lambda>i. u4 s (12 + 4 * i)) [0..<5],
      fh_nsess = u4 s 32,
      fh_nfrms = u4 s 36,
      fh_header_size = u4 s 40,
      fh_skip2 = u4 s 44,
      fh_file_size = u8 s 48,
      fh_skip3 = map (\<lambda>i. u4 s (56 + 4 * i)) [0..<2],
      fh_file_size2 = u8 s 64\<rparr>"

definition sess_hdr_of :: "byte list \<Rightarrow> sess_hdr" where
  "sess_hdr_of s =
     \<lparr>sh_session_size = u8 s 0,
      sh_skip1 = map (\<lambda>i. u4 s (8 + 4 * i)) [0..<6],
      sh_nfrms = u4 s 32,
      sh_byte_depth = u4 s 36,
      sh_skip2 = u4 s 40,
      sh_xsize = u4 s 44,
      sh_bytes_per_row = u4 s 48,
      sh_ysize = u4 s 52,
      sh_bytes_per_img = u4 s 56,
      sh_skip3 = map (\<lambda>i. u4 s (60 + 4 * i)) [0..<2],
      sh_header_size = u4 s 68,
      sh_session_data_size = u8 s 72\<rparr>"

text \<open>\<^verbatim>\<open>np.zeros(1, dtype=...)\<close>: one record with every field zero.\<close>

definition zeros_file_hdr :: "file_hdr list" where
  "zeros_file_hdr = [file_hdr_of (replicate 72 0)]"

definition zeros_sess_hdr :: "sess_hdr list" where
  "zeros_sess_hdr = [sess_hdr_of (replicate 80 0)]"

text \<open>\<^verbatim>\<open>np.fromstring(s, dtype)\<close> in binary mode: the string is cut into records of
  \<open>recsize\<close> bytes; a length that is not a multiple of the record size raises
  \<^verbatim>\<open>ValueError\<close>, the empty string gives an array of no record.\<close>

definition fromstring :: "nat \<Rightarrow> (byte list \<Rightarrow> 'r) \<Rightarrow> byte list \<Rightarrow> error + 'r list" where
  "fromstring recsize rec_of s =
     (if length s mod recsize \<noteq> 0
      then Inl (ValueError ''string size must be a multiple of element size'')
      else Inr (map (\<lambda>k. rec_of (take recsize (drop (k * recsize) s)))
                  [0..<length s div recsize]))"

text \<open>Comparison of numpy byte strings (\<^verbatim>\<open>'S8'\<close> against \<^verbatim>\<open>b'DCIMG'\<close>): the shorter
  operand counts as padded with NUL bytes, so only trailing NUL bytes are ignored.\<close>

definition rstrip_nul :: "byte list \<Rightarrow> byte list" where
  "rstrip_nul s = rev (dropWhile (\<lambda>b. b = 0) (rev s))"

definition s_eq :: "byte list \<Rightarrow> byte list \<Rightarrow> bool" where
  "s_eq a b = (rstrip_nul a = rstrip_nul b)"

text \<open>The truth value of a numpy array of booleans, as \<^verbatim>\<open>not\<close> and \<^verbatim>\<open>if\<close> take it.\<close>

definition truth :: "bool list \<Rightarrow> error + bool" where
  "truth bs =
     (case bs of
        [] \<Rightarrow> Inr False
      | [b] \<Rightarrow> Inr b
      | _ \<Rightarrow> Inl (ValueError ''The truth value of an array with more than one element is ambiguous''))"

definition DCIMG :: "byte list" where
  "DCIMG = [0x44, 0x43, 0x49, 0x4D, 0x47]"

section \<open>The handle and its properties\<close>

text \<open>The attributes of a \<^verbatim>\<open>DCIMGFile\<close> that the code reads: the mapping, the two
  header arrays (numpy arrays of records, \<open>None\<close> before the first parse) and the pixel
  type. \<^verbatim>\<open>file_name\<close> is replaced by the contents of the file, handed to \<open>open\<close>;
  \<^verbatim>\<open>file_size\<close> is never assigned.\<close>

record dcimg =
  mm :: "mmap option"
  file_header :: "file_hdr list option"
  sess_header :: "sess_hdr list option"
  dtype :: "np_dtype option"

definition init :: dcimg where
  "init = \<lparr>mm = None, file_header = None, sess_header = None, dtype = None\<rparr>"

text \<open>\<^verbatim>\<open>self.mm[a:b]\<close>: the attribute is \<open>None\<close> before \<open>open\<close> and after \<open>close\<close>.\<close>

definition mm_getitem :: "mmap option \<Rightarrow> nat \<Rightarrow> nat \<Rightarrow> error + byte list" where
  "mm_getitem mo a b =
     (case mo of
        None \<Rightarrow> Inl (TypeError ''NoneType object is not subscriptable'')
      | Some m \<Rightarrow> mm_slice m a b)"

text \<open>\<^verbatim>\<open>arr[field][0]\<close>: a header that was never parsed is \<open>None\<close> (\<^verbatim>\<open>TypeError\<close>), an
  array of no record has no element 0 (\<^verbatim>\<open>IndexError\<close>).\<close>

definition item0 :: "'r list option \<Rightarrow> ('r \<Rightarrow> 'a) \<Rightarrow> error + 'a" where
  "item0 arr field =
     (case arr of
        None \<Rightarrow> Inl (TypeError ''NoneType object is not subscriptable'')
      | Some [] \<Rightarrow> Inl (IndexError ''index 0 is out of bounds for axis 0 with size 0'')
      | Some (r # _) \<Rightarrow> Inr (field r))"

definition nfrms :: "dcimg \<Rightarrow> error + 32 word" where
  "nfrms self = item0 (sess_header self) sh_nfrms"

definition byte_depth :: "dcimg \<Rightarrow> error + 32 word" where
  "byte_depth self = item0 (sess_header self) sh_byte_depth"

definition xsize :: "dcimg \<Rightarrow> error + 32 word" where
  "xsize self = item0 (sess_header self) sh_xsize"

definition ysize :: "dcimg \<Rightarrow> error + 32 word" where
  "ysize self = item0 (sess_header self) sh_ysize"

definition bytes_per_row :: "dcimg \<Rightarrow> error + 32 word" where
  "bytes_per_row self = item0 (sess_header self) sh_bytes_per_row"

definition bytes_per_img :: "dcimg \<Rightarrow> error + 32 word" where
  "bytes_per_img self = item0 (sess_header self) sh_bytes_per_img"

definition header_size :: "dcimg \<Rightarrow> error + 32 word" where
  "header_size self = item0 (file_header self) fh_header_size"

text \<open>\<^verbatim>\<open>(self.nfrms, self.xsize, self.ysize)\<close>, the properties read from left to right.\<close>

definition shape :: "dcimg \<Rightarrow> error + (32 word \<times> 32 word \<times> 32 word)" where
  "shape self =
     bind_err (nfrms self) (\<lambda>n.
     bind_err (xsize self) (\<lambda>x.
     bind_err (ysize self) (\<lambda>y. Inr (n, x, y))))"

text \<open>\<^verbatim>\<open>int(self.header_size + self.sess_header['session_data_size'][0])\<close>: the sum of a
  \<^verbatim>\<open>uint32\<close> and a \<^verbatim>\<open>uint64\<close> is a \<^verbatim>\<open>uint64\<close> and wraps at \<open>2 ^ 64\<close>.\<close>

definition session_footer_offset :: "dcimg \<Rightarrow> error + int" where
  "session_footer_offset self =
     bind_err (header_size self) (\<lambda>hs.
     bind_err (item0 (sess_header self) sh_session_data_size) (\<lambda>ds.
       Inr (uint ((ucast hs :: 64 word) + ds))))"


section \<open>Opening a file\<close>

text \<open>\<^verbatim>\<open>vars(self)\<close> holds the attributes assigned in \<^verbatim>\<open>__init__\<close>; the properties
  of the class are not among them. \<^verbatim>\<open>template.format(**vars(self))\<close> raises
  \<^verbatim>\<open>KeyError\<close> for the first replacement field that is not a key.\<close>

definition instance_vars :: "string list" where
  "instance_vars =
     [''mm'', ''file_header'', ''sess_header'', ''file_size'', ''dtype'', ''file_name'']"

definition missing_key :: "string list \<Rightarrow> string option" where
  "missing_key names =
     (case filter (\<lambda>k. k \<notin> set instance_vars) names of [] \<Rightarrow> None | k # _ \<Rightarrow> Some k)"

text \<open>Lines 137 to 146 of \<^verbatim>\<open>_parse_header\<close>: the two size checks. The products are
  products of two \<^verbatim>\<open>uint32\<close> scalars and wrap at \<open>2 ^ 32\<close>. The message is formatted
  before \<^verbatim>\<open>RuntimeError\<close> is raised.\<close>

definition check_sizes :: "dcimg \<Rightarrow> dcimg \<times> (error + unit)" where
  "check_sizes self =
     raising (bytes_per_row self) self (\<lambda>bpr.
     raising (byte_depth self) self (\<lambda>bd.
     raising (ysize self) self (\<lambda>ys.
     if bpr \<noteq> bd * ys then
       (case missing_key [''bytes_per_row'', ''byte_depth'', ''y_size''] of
          Some k \<Rightarrow> (self, Inl (KeyError k))
        | None \<Rightarrow> (self, Inl (RuntimeError
            ''bytes_per_row ({bytes_per_row}) != byte_depth ({byte_depth}) * nrows ({y_size})'')))
     else
     raising (bytes_per_img self) self (\<lambda>bpi.
     raising (bytes_per_row self) self (\<lambda>bpr'.
     raising (ysize self) self (\<lambda>ys'.
     if bpi \<noteq> bpr' * ys' then
       (case missing_key [''bytes_per_img'', ''y_size'', ''bytes_per_row''] of
          Some k \<Rightarrow> (self, Inl (KeyError k))
        | None \<Rightarrow> (self, Inl (RuntimeError
            ''bytes per img ({bytes_per_img}) != nrows ({y_size}) * bytes_per_row ({bytes_per_row})'')))
     else (self, Inr ())))))))"

text \<open>Lines 129 to 135: the pixel type, set before the size checks run.\<close>

definition set_dtype :: "dcimg \<Rightarrow> dcimg \<times> (error + unit)" where
  "set_dtype self =
     raising (byte_depth self) self (\<lambda>bd.
     if bd = 1 then check_sizes (self\<lparr>dtype := Some uint8\<rparr>)
     else if bd = 2 then check_sizes (self\<lparr>dtype := Some uint16\<rparr>)
     else (self, Inl (RuntimeError (''Invalid byte-depth: '' @ str_nat (unat bd)))))"

text \<open>\<^verbatim>\<open>_parse_header\<close>, lines 115 to 127, and then the checks above. The result is the
  handle as the call leaves it and the exception raised, if any. The header attribute is
  set to \<^verbatim>\<open>np.zeros(1, ...)\<close> before the bytes are read.\<close>

definition parse_header :: "dcimg \<Rightarrow> dcimg \<times> (error + unit)" where
  "parse_header self0 =
     (let self1 = self0\<lparr>file_header := Some zeros_file_hdr\<rparr> in
      raising (mm_getitem (mm self1) 0 72) self1 (\<lambda>s.
      raising (fromstring 72 file_hdr_of s) self1 (\<lambda>fh.
      let self2 = self1\<lparr>file_header := Some fh\<rparr> in
      raising (truth (map (\<lambda>r. s_eq (fh_file_format r) DCIMG) fh)) self2 (\<lambda>is_dcimg.
      if \<not> is_dcimg then (self2, Inl (RuntimeError ''Invalid DCIMG file''))
      else
      let self3 = self2\<lparr>sess_header := Some zeros_sess_hdr\<rparr> in
      raising (header_size self3) self3 (\<lambda>index_from.
      let index_to = unat index_from + 80 in
      raising (mm_getitem (mm self3) (unat index_from) index_to) self3 (\<lambda>s'.
      raising (fromstring 80 sess_hdr_of s') self3 (\<lambda>sh.
      set_dtype (self3\<lparr>sess_header := Some sh\<rparr>))))))))"

text \<open>\<^verbatim>\<open>close\<close>: the handle forgets its mapping.\<close>

definition close :: "dcimg \<Rightarrow> dcimg" where
  "close self = self\<lparr>mm := None\<rparr>"

text \<open>\<^verbatim>\<open>open\<close>, on the contents of the file. \<^verbatim>\<open>mmap.mmap\<close> refuses an empty file.
  When the first five bytes are not the magic, the mapping is closed, and the closed
  mapping is stored and parsed all the same.\<close>

definition "open" :: "dcimg \<Rightarrow> byte list \<Rightarrow> dcimg \<times> (error + unit)" where
  "open self contents =
     (let self1 = close self in
      if contents = [] then (self1, Inl (ValueError ''cannot mmap an empty file''))
      else
        let m = \<lparr>buf = contents, closed = False\<rparr>;
            m' = (if take 5 contents \<noteq> DCIMG then m\<lparr>closed := True\<rparr> else m)
        in parse_header (self1\<lparr>mm := Some m'\<rparr>))"

section \<open>Timestamps\<close>





section \<open>Array views\<close>

text \<open>A numpy array is a shape, an element type and its memory: the mapping from a
  byte offset on (\<open>Mapped\<close>, what \<^verbatim>\<open>np.ndarray(shape, dtype, mm, offset)\<close> builds on a
  mapping), memory of its own that nothing was stored into (\<open>Fresh\<close>, what the same call
  builds when the buffer is \<open>None\<close>), or a converted copy (\<open>Converted\<close>, what
  \<^verbatim>\<open>astype\<close> returns: the element type and the elements of the array it was taken from,
  in row-major order, at the time of the copy).\<close>

datatype nd_memory = Mapped nat | Fresh | Converted np_dtype "nat list"

record ndarray =
  nd_shape :: "nat list"
  nd_dtype :: np_dtype
  nd_data :: nd_memory

text \<open>\<^verbatim>\<open>np.ndarray(shape, dtype, buffer, offset)\<close> for a shape and an offset that are not
  negative. The buffer of a closed mapping cannot be taken; a buffer shorter than
  \<open>offset + itemsize * size\<close> is refused. Shapes and offsets are natural numbers here:
  with a negative layer index the source hands numpy a negative \<open>offset\<close>, which points
  before the mapping, and that case is outside this model.\<close>

definition np_ndarray :: "nat list \<Rightarrow> np_dtype option \<Rightarrow> mmap option \<Rightarrow> nat \<Rightarrow> error + ndarray" where
  "np_ndarray shp dt mo offset =
     (let d = (case dt of None \<Rightarrow> float64 | Some d' \<Rightarrow> d') in
      case mo of
        None \<Rightarrow> Inr \<lparr>nd_shape = shp, nd_dtype = d, nd_data = Fresh\<rparr>
      | Some m \<Rightarrow>
          if closed m then Inl (ValueError ''mmap closed or invalid'')
          else if length (buf m) < offset + itemsize d * prod_list shp
          then Inl (TypeError ''buffer is too small for requested array'')
          else Inr \<lparr>nd_shape = shp, nd_dtype = d, nd_data = Mapped offset\<rparr>)"

text \<open>One element of the mapping, \<open>itemsize\<close> bytes in little-endian order, and the byte
  offset of the element \<open>[i, y, x]\<close> of a three-dimensional view in row-major order.\<close>

definition elem_at :: "byte list \<Rightarrow> np_dtype \<Rightarrow> nat \<Rightarrow> nat" where
  "elem_at b d pos = from_bytes_little (take (itemsize d) (drop pos b))"

definition item_offset :: "ndarray \<Rightarrow> nat \<Rightarrow> nat \<Rightarrow> nat \<Rightarrow> nat" where
  "item_offset a i y x =
     (case (nd_data a, nd_shape a) of
        (Mapped offset, [n0, n1, n2]) \<Rightarrow> offset + itemsize (nd_dtype a) * ((i * n1 + y) * n2 + x)
      | _ \<Rightarrow> 0)"

text \<open>Storing bytes into the mapping at a position.\<close>

definition write_bytes :: "byte list \<Rightarrow> nat \<Rightarrow> byte list \<Rightarrow> byte list" where
  "write_bytes b pos src = take pos b @ src @ drop (pos + length src) b"

text \<open>\<^verbatim>\<open>a[i, 0, 0:4] = px\<close> for \<open>px\<close> of shape \<open>(1, 1, 4)\<close> and of the element type of
  \<open>a\<close>. Row 0 must exist, and the slice \<open>0:4\<close> of a row shorter than 4 has fewer than 4
  elements, to which \<open>px\<close> cannot be broadcast. Both arrays are views of the one
  mapping, so the assignment copies \<open>4 * itemsize\<close> bytes inside it; numpy copies as if
  the source were read first.\<close>

definition setitem_row0 :: "ndarray \<Rightarrow> nat \<Rightarrow> ndarray \<Rightarrow> mmap option \<Rightarrow> error + mmap option" where
  "setitem_row0 a i px mo =
     (case nd_shape a of
        [n0, n1, n2] \<Rightarrow>
          if n0 \<le> i then Inl (IndexError ''index is out of bounds for axis 0'')
          else if n1 = 0 then Inl (IndexError ''index 0 is out of bounds for axis 1 with size 0'')
          else if n2 < 4 then Inl (ValueError ''could not broadcast input array from shape (1,1,4)'')
          else
            (case (nd_data a, nd_data px, mo) of
               (Mapped dst, Mapped src, Some m) \<Rightarrow>
                 let isz = itemsize (nd_dtype a) in
                 Inr (Some (m\<lparr>buf := write_bytes (buf m) (dst + isz * (i * n1 * n2))
                                        (take (4 * isz) (drop src (buf m)))\<rparr>))
             | _ \<Rightarrow> Inr mo)
      | _ \<Rightarrow> Inl (IndexError ''too many indices for array''))"

text \<open>\<^verbatim>\<open>a.astype(dtype)\<close>: a copy; the conversion of the elements is left to numpy.\<close>

definition astype :: "mmap option \<Rightarrow> ndarray \<Rightarrow> np_dtype \<Rightarrow> ndarray" where
  "astype mo a d =
     (case (nd_data a, mo) of
        (Mapped offset, Some m) \<Rightarrow>
          \<lparr>nd_shape = nd_shape a, nd_dtype = d,
           nd_data = Converted (nd_dtype a)
             (map (\<lambda>k. elem_at (buf m) (nd_dtype a) (offset + itemsize (nd_dtype a) * k))
                [0..<prod_list (nd_shape a)])\<rparr>
      | _ \<Rightarrow> a\<lparr>nd_dtype := d\<rparr>)"

text \<open>\<^verbatim>\<open>np.squeeze(a, axis)\<close>: with \<open>axis = None\<close> every axis of length 1 goes; an
  \<open>axis\<close> that is not an integer raises \<^verbatim>\<open>TypeError\<close>. The second argument is typed
  as the element type that \<open>frame\<close> passes there.\<close>

definition squeeze :: "ndarray \<Rightarrow> np_dtype option \<Rightarrow> error + ndarray" where
  "squeeze a axis =
     (case axis of
        None \<Rightarrow> Inr (a\<lparr>nd_shape := filter (\<lambda>n. n \<noteq> 1) (nd_shape a)\<rparr>)
      | Some d \<Rightarrow> Inl (TypeError ''an integer is required for the axis''))"

section \<open>Layers and frames\<close>

text \<open>The loop of \<open>layer\<close> (lines 191 to 194): frame \<open>i\<close> of \<open>a\<close> gets the four
  elements at byte \<open>index\<close>, and \<open>index\<close> moves on by \<open>4 * byte_depth\<close>. The mapping
  is changed by each assignment, and stays changed when a later step raises.\<close>

fun corner_loop ::
  "ndarray \<Rightarrow> np_dtype option \<Rightarrow> nat \<Rightarrow> mmap option \<Rightarrow> nat \<Rightarrow> nat \<Rightarrow> nat \<Rightarrow> mmap option \<times> (error + unit)" where
  "corner_loop a dt step mo index i 0 = (mo, Inr ())"
| "corner_loop a dt step mo index i (Suc k) =
     raising (np_ndarray [1, 1, 4] dt mo index) mo (\<lambda>px.
     raising (setitem_row0 a i px mo) mo (\<lambda>mo'.
       corner_loop a dt step mo' (index + step) (Suc i) k))"

text \<open>\<^verbatim>\<open>layer(index, frames_per_layer, dtype)\<close>. The products of a header field and
  the Python integers \<open>index\<close> and \<open>frames_per_layer\<close> are taken in \<open>nat\<close>.\<close>

definition layer :: "dcimg \<Rightarrow> nat \<Rightarrow> nat \<Rightarrow> np_dtype option \<Rightarrow> dcimg \<times> (error + ndarray)" where
  "layer self index frames_per_layer dtype' =
     raising (bytes_per_img self) self (\<lambda>bpi.
     let offset = 232 + unat bpi * frames_per_layer * index in
     raising (ysize self) self (\<lambda>ys.
     raising (xsize self) self (\<lambda>xs.
     raising (np_ndarray [frames_per_layer, unat ys, unat xs] (dtype self) (mm self) offset) self (\<lambda>a.
     raising (session_footer_offset self) self (\<lambda>fo.
     raising (nfrms self) self (\<lambda>n.
     raising (byte_depth self) self (\<lambda>bd.
     let index' = nat fo + 272 + unat n * (4 + 8) + 4 * unat bd * index * frames_per_layer in
     case corner_loop a (dtype self) (4 * unat bd) (mm self) index' 0 frames_per_layer of
       (mo, Inl e) \<Rightarrow> (self\<lparr>mm := mo\<rparr>, Inl e)
     | (mo, Inr u) \<Rightarrow>
         (case dtype' of
            None \<Rightarrow> (self\<lparr>mm := mo\<rparr>, Inr a)
          | Some d \<Rightarrow> (self\<lparr>mm := mo\<rparr>, Inr (astype mo a d))))))))))"

text \<open>\<^verbatim>\<open>frame(index, dtype)\<close> is \<^verbatim>\<open>np.squeeze(self.layer(index), dtype)\<close>: the layer is
  taken with the defaults \<open>frames_per_layer = 1\<close> and \<open>dtype = None\<close>, and \<open>dtype\<close>
  arrives at \<^verbatim>\<open>np.squeeze\<close> as its second parameter, \<open>axis\<close>.\<close>

definition frame :: "dcimg \<Rightarrow> nat \<Rightarrow> np_dtype option \<Rightarrow> dcimg \<times> (error + ndarray)" where
  "frame self index dtype' =
     (case layer self index 1 None of
        (self', Inl e) \<Rightarrow> (self', Inl e)
      | (self', Inr a) \<Rightarrow> (self', squeeze a dtype'))"

section \<open>The offsets of the specification\<close>

text \<open>The two offsets as the specification writes them (its address calculator): the
  pixel block of a layer at \<open>232 + bytes_per_img * frames_per_layer * index\<close>, and the
  four footer pixels of frame \<open>i\<close> of the layer at
  \<open>session_footer_offset + 272 + nfrms * (4 + 8) + 4 * byte_depth * (index * frames_per_layer + i)\<close>,
  where \<open>session_footer_offset\<close> is the derived value that the handle computes, a 64-bit
  sum.\<close>

definition spec_pixel_offset :: "sess_hdr \<Rightarrow> nat \<Rightarrow> nat \<Rightarrow> nat" where
  "spec_pixel_offset sh index fpl = 232 + unat (sh_bytes_per_img sh) * fpl * index"

definition spec_footer_offset :: "file_hdr \<Rightarrow> sess_hdr \<Rightarrow> nat" where
  "spec_footer_offset fh sh = unat (ucast (fh_header_size fh) + sh_session_data_size sh :: 64 word)"

definition spec_corner_offset :: "file_hdr \<Rightarrow> sess_hdr \<Rightarrow> nat \<Rightarrow> nat \<Rightarrow> nat \<Rightarrow> nat" where
  "spec_corner_offset fh sh index fpl i =
     spec_footer_offset fh sh + 272 + unat (sh_nfrms sh) * (4 + 8) +
     4 * unat (sh_byte_depth sh) * (index * fpl + i)"

text \<open>The view that the specification describes for a layer: shape
  \<open>(frames_per_layer, ysize, xsize)\<close>, the native element type, the pixel block at the
  pixel offset.\<close>

definition spec_layer_view :: "sess_hdr \<Rightarrow> np_dtype \<Rightarrow> nat \<Rightarrow> nat \<Rightarrow> ndarray" where
  "spec_layer_view sh dt index fpl =
     \<lparr>nd_shape = [fpl, unat (sh_ysize sh), unat (sh_xsize sh)], nd_dtype = dt,
      nd_data = Mapped (spec_pixel_offset sh index fpl)\<rparr>"

section \<open>Open handles\<close>

text \<open>A handle as a successful \<open>open\<close> leaves it, and as \<open>layer\<close> keeps it: an open
  mapping, one record in each header array, the pixel type of the byte depth, and the
  two size identities that \<^verbatim>\<open>_parse_header\<close> checks (in 32-bit arithmetic).\<close>

definition valid_handle :: "dcimg \<Rightarrow> bool" where
  "valid_handle self =
     (case (mm self, file_header self, sess_header self) of
        (Some m, Some [fh], Some [sh]) \<Rightarrow>
          \<not> closed m \<and>
          (if sh_byte_depth sh = 1 then dtype self = Some uint8
           else sh_byte_depth sh = 2 \<and> dtype self = Some uint16) \<and>
          sh_bytes_per_row sh = sh_byte_depth sh * sh_ysize sh \<and>
          sh_bytes_per_img sh = sh_bytes_per_row sh * sh_ysize sh
      | _ \<Rightarrow> False)"

text \<open>The handle after the file header has been read from the bytes \<open>bs\<close>, the 80
  bytes that \<^verbatim>\<open>_parse_header\<close> takes for the session header, and the files in which
  both headers can be read: 72 bytes with the magic and NUL padding, and 80 bytes at the
  offset that the file header gives.\<close>

definition after_file_header :: "dcimg \<Rightarrow> byte list \<Rightarrow> dcimg" where
  "after_file_header self bs =
     self\<lparr>mm := Some \<lparr>buf = bs, closed = False\<rparr>,
          file_header := Some [file_hdr_of (take 72 bs)]\<rparr>"

definition session_bytes :: "byte list \<Rightarrow> byte list" where
  "session_bytes bs = take 80 (drop (unat (u4 (take 72 bs) 40)) bs)"

definition headers_present :: "byte list \<Rightarrow> bool" where
  "headers_present bs \<longleftrightarrow>
     72 \<le> length bs \<and> take 8 bs = DCIMG @ [0, 0, 0] \<and> length (session_bytes bs) = 80"

section \<open>A small file\<close>

text \<open>A file of two frames of 4 by 4 pixels of one byte, laid out as the code expects:
  file header, session header at byte 72, pixel data at byte 232, footer at byte 264
  (272 bytes of preamble, the frame counters, the timestamps at byte 544, the first four
  pixels of each frame at byte 560). In the pixel data the first bytes of each frame
  hold the marker \<open>00 FF 00 FF 00\<close>.\<close>

definition sample_file_header :: "byte list" where
  "sample_file_header =
     DCIMG @ [0, 0, 0] @ [7, 0, 0, 0] @ replicate 20 0 @
     [1, 0, 0, 0] @ [2, 0, 0, 0] @ [72, 0, 0, 0] @ [0, 0, 0, 0] @
     [56, 2, 0, 0, 0, 0, 0, 0] @ replicate 8 0 @ [56, 2, 0, 0, 0, 0, 0, 0]"

definition sample_sess_header :: "byte list" where
  "sample_sess_header =
     [240, 1, 0, 0, 0, 0, 0, 0] @ replicate 24 0 @
     [2, 0, 0, 0] @ [1, 0, 0, 0] @ [0, 0, 0, 0] @
     [4, 0, 0, 0] @ [4, 0, 0, 0] @ [4, 0, 0, 0] @ [16, 0, 0, 0] @
     replicate 8 0 @ [160, 0, 0, 0] @ [192, 0, 0, 0, 0, 0, 0, 0]"

definition sample_pixels :: "byte list" where
  "sample_pixels =
     [0, 255, 0, 255, 0, 15, 16, 17, 18, 19, 20, 21, 22, 23, 24, 25] @
     [0, 255, 0, 255, 0, 35, 36, 37, 38, 39, 40, 41, 42, 43, 44, 45]"

definition sample_footer :: "byte list" where
  "sample_footer =
     replicate 272 0 @
     [1, 0, 0, 0] @ [2, 0, 0, 0] @
     [10, 0, 0, 0, 5, 0, 0, 0] @ [11, 0, 0, 0, 244, 1, 0, 0] @
     [11, 12, 13, 14] @ [31, 32, 33, 34]"

definition sample_file :: "byte list" where
  "sample_file =
     sample_file_header @ sample_sess_header @ replicate 80 0 @ sample_pixels @ sample_footer"

definition sample :: dcimg where
  "sample = fst (open init sample_file)"

text \<open>The two headers of the small file, decoded; the handle that \<open>open\<close> makes of
  it is \<open>sample\<close>.\<close>

definition sample_fh :: file_hdr where
  "sample_fh =
     \<lparr>fh_file_format = [68, 67, 73, 77, 71, 0, 0, 0], fh_format_version = 7,
      fh_skip = [0, 0, 0, 0, 0], fh_nsess = 1, fh_nfrms = 2, fh_header_size = 72,
      fh_skip2 = 0, fh_file_size = 568, fh_skip3 = [0, 0], fh_file_size2 = 568\<rparr>"

definition sample_sh :: sess_hdr where
  "sample_sh =
     \<lparr>sh_session_size = 496, sh_skip1 = [0, 0, 0, 0, 0, 0], sh_nfrms = 2,
      sh_byte_depth = 1, sh_skip2 = 0, sh_xsize = 4, sh_bytes_per_row = 4,
      sh_ysize = 4, sh_bytes_per_img = 16, sh_skip3 = [0, 0],
      sh_header_size = 160, sh_session_data_size = 192\<rparr>"



definition narrow :: dcimg where
  "narrow = fst (open init (sample_file[116 := 2]))"

definition overlapping_file :: "byte list" where
  "overlapping_file = sample_file[116 := 36, 144 := 0, 372 := 7] @ replicate 100 0"

definition overlapping_sh :: sess_hdr where
  "overlapping_sh = sample_sh\<lparr>sh_xsize := 36, sh_session_data_size := 0\<rparr>"

definition overlapping :: dcimg where
  "overlapping = fst (open init overlapping_file)"

text \<open>The small file with one row per frame.\<close>

definition single_row :: dcimg where
  "single_row = fst (open init (sample_file[120 := 1, 124 := 1, 128 := 1]))"



section \<open>Sequencing and header reads\<close>

lemma raising_simps [simp]:
  "raising (Inl e) s k = (s, Inl e)"
  "raising (Inr x) s k = k x"
  by (simp_all add: raising_def)

lemma bind_err_simps [simp]:
  "bind_err (Inl e) k = Inl e"
  "bind_err (Inr x) k = k x"
  by (simp_all add: bind_err_def)

lemma item0_simps [simp]:
  "item0 None f = Inl (TypeError ''NoneType object is not subscriptable'')"
  "item0 (Some []) f = Inl (IndexError ''index 0 is out of bounds for axis 0 with size 0'')"
  "item0 (Some (r # rs)) f = Inr (f r)"
  by (simp_all add: item0_def)

lemma fromstring_one:
  "length s = n \<Longrightarrow> 0 < n \<Longrightarrow> fromstring n rec_of s = Inr [rec_of s]"
  by (simp add: fromstring_def)

lemma fromstring_short:
  "0 < length s \<Longrightarrow> length s < n \<Longrightarrow> \<exists>msg. fromstring n rec_of s = Inl (ValueError msg)"
  by (simp add: fromstring_def)

lemma fromstring_empty: "fromstring n rec_of [] = Inr []"
  by (simp add: fromstring_def)

lemma missing_key_row:
  "missing_key [''bytes_per_row'', ''byte_depth'', ''y_size''] = Some ''bytes_per_row''"
  by (simp add: missing_key_def instance_vars_def)

lemma missing_key_img:
  "missing_key [''bytes_per_img'', ''y_size'', ''bytes_per_row''] = Some ''bytes_per_img''"
  by (simp add: missing_key_def instance_vars_def)

lemma check_sizes_cases:
  "check_sizes s = (s, Inr ()) \<or> (\<exists>k. check_sizes s = (s, Inl (KeyError k)))
     \<or> (\<exists>msg. check_sizes s = (s, Inl (TypeError msg)))
     \<or> (\<exists>msg. check_sizes s = (s, Inl (IndexError msg)))"
  by (cases "sess_header s" rule: option.exhaust; cases "the (sess_header s)")
     (auto simp: check_sizes_def bytes_per_row_def byte_depth_def ysize_def bytes_per_img_def
        missing_key_row missing_key_img)

lemma fst_check_sizes [simp]: "fst (check_sizes s) = s"
  using check_sizes_cases [of s] by auto

lemma snd_check_sizes_not_runtime: "snd (check_sizes s) \<noteq> Inl (RuntimeError msg)"
  using check_sizes_cases [of s] by auto

lemma list3: "length xs = 3 \<Longrightarrow> \<exists>x y z. xs = [x, y, z]"
  by (cases xs; cases "tl xs"; cases "tl (tl xs)") auto

lemma rstrip_nul_magic:
  "rstrip_nul (DCIMG @ [x, y, z]) = DCIMG \<longleftrightarrow> x = 0 \<and> y = 0 \<and> z = 0"
  by (simp add: rstrip_nul_def DCIMG_def)

lemma rstrip_nul_DCIMG: "rstrip_nul DCIMG = DCIMG"
  by (simp add: rstrip_nul_def DCIMG_def)

lemma s_eq_magic:
  assumes "length f = 8" "take 5 f = DCIMG"
  shows "s_eq f DCIMG \<longleftrightarrow> drop 5 f = [0, 0, 0]"
proof -
  have "length (drop 5 f) = 3" using assms(1) by simp
  then obtain x y z where d: "drop 5 f = [x, y, z]" using list3 by blast
  have f: "f = DCIMG @ [x, y, z]"
    using append_take_drop_id [of 5 f] assms(2) d by simp
  show ?thesis
    unfolding s_eq_def rstrip_nul_DCIMG d
    by (subst f) (simp add: rstrip_nul_magic)
qed

lemma open_closed_magic:
  assumes "take 5 bs \<noteq> DCIMG" "bs \<noteq> []"
  shows "open self bs =
    (self\<lparr>mm := Some \<lparr>buf = bs, closed = True\<rparr>, file_header := Some zeros_file_hdr\<rparr>,
     Inl (ValueError ''mmap closed or invalid''))"
  using assms
  by (simp add: open_def close_def parse_header_def mm_getitem_def mm_slice_def Let_def)

lemma open_empty:
  "open self [] = (self\<lparr>mm := None\<rparr>, Inl (ValueError ''cannot mmap an empty file''))"
  by (simp add: open_def close_def)

lemma open_short:
  assumes "take 5 bs = DCIMG" "length bs < 72"
  shows "\<exists>msg. snd (open self bs) = Inl (ValueError msg)
     \<and> mm (fst (open self bs)) = Some \<lparr>buf = bs, closed = False\<rparr>"
proof -
  have ne: "bs \<noteq> []" using assms(1) by (auto simp: DCIMG_def)
  then have "0 < length bs" by simp
  with assms(2) obtain msg where "fromstring 72 file_hdr_of bs = Inl (ValueError msg)"
    using fromstring_short by blast
  then show ?thesis using assms ne
    by (simp add: open_def close_def parse_header_def mm_getitem_def mm_slice_def Let_def)
qed

lemma open_long:
  assumes "take 5 bs = DCIMG" "72 \<le> length bs"
  shows "open self bs =
    (if drop 5 (take 8 bs) \<noteq> [0, 0, 0]
     then (after_file_header self bs, Inl (RuntimeError ''Invalid DCIMG file''))
     else raising (fromstring 80 sess_hdr_of
                     (take 80 (drop (unat (u4 (take 72 bs) 40)) bs)))
            ((after_file_header self bs)\<lparr>sess_header := Some zeros_sess_hdr\<rparr>)
            (\<lambda>sh. set_dtype ((after_file_header self bs)\<lparr>sess_header := Some sh\<rparr>)))"
proof -
  have ne: "bs \<noteq> []" using assms(2) by auto
  have fs: "fromstring 72 file_hdr_of (take 72 bs) = Inr [file_hdr_of (take 72 bs)]"
    using assms(2) by (intro fromstring_one) simp_all
  have t8: "take 8 (take 72 bs) = take 8 bs" by (simp add: min_def)
  have magic: "s_eq (take 8 bs) DCIMG \<longleftrightarrow> drop 5 (take 8 bs) = [0, 0, 0]"
    using assms by (intro s_eq_magic) (simp_all add: min_def)
  show ?thesis
    using assms(1) ne fs magic
    by (simp add: open_def close_def parse_header_def mm_getitem_def mm_slice_def Let_def
        truth_def header_size_def file_hdr_of_def t8 after_file_header_def)
qed


lemma magic8:
  assumes "take 8 bs = DCIMG @ [0, 0, 0]"
  shows "take 5 bs = DCIMG" "drop 5 (take 8 bs) = [0, 0, 0]" "8 \<le> length bs"
proof -
  have "take 5 (take 8 bs) = DCIMG" unfolding assms by (simp add: DCIMG_def)
  then show "take 5 bs = DCIMG" by (simp add: min_def)
  show "drop 5 (take 8 bs) = [0, 0, 0]" unfolding assms by (simp add: DCIMG_def)
  have "length (take 8 bs) = 8" unfolding assms by (simp add: DCIMG_def)
  then show "8 \<le> length bs" by simp
qed

lemma set_dtype_mm [simp]: "mm (fst (set_dtype s)) = mm s"
  by (cases "byte_depth s") (simp_all add: set_dtype_def)

lemma item0_error:
  "item0 arr f = Inl e \<Longrightarrow> (\<exists>msg. e = TypeError msg) \<or> (\<exists>msg. e = IndexError msg)"
  by (auto simp: item0_def split: option.splits list.splits)

lemma set_dtype_not_magic:
  "snd (set_dtype s) \<noteq> Inl (RuntimeError ''Invalid DCIMG file'')"
proof (cases "byte_depth s")
  case (Inl e)
  then show ?thesis using item0_error [of "sess_header s" sh_byte_depth e]
    by (auto simp: set_dtype_def byte_depth_def)
next
  case (Inr bd)
  then show ?thesis by (simp add: set_dtype_def snd_check_sizes_not_runtime)
qed

lemma fromstring_error:
  "fromstring n rec_of s = Inl e \<Longrightarrow> \<exists>msg. e = ValueError msg"
  by (auto simp: fromstring_def split: if_splits)

text \<open>Claim C6. When both headers can be read, \<open>open\<close> sets the pixel type from the
  byte depth, 1 to unsigned 8-bit and 2 to unsigned 16-bit (whatever the later size checks
  do), and for every other byte depth it raises the \<^verbatim>\<open>RuntimeError\<close> of
  \<^verbatim>\<open>_parse_header\<close>, the error that the specification calls a format error, with the
  value in its text.\<close>

theorem byte_depth_selects_dtype:
  assumes "headers_present bs"
  shows "(sh_byte_depth (sess_hdr_of (session_bytes bs)) = 1 \<longrightarrow>
            dtype (fst (open self bs)) = Some uint8) \<and>
         (sh_byte_depth (sess_hdr_of (session_bytes bs)) = 2 \<longrightarrow>
            dtype (fst (open self bs)) = Some uint16) \<and>
         (sh_byte_depth (sess_hdr_of (session_bytes bs)) \<noteq> 1 \<and>
          sh_byte_depth (sess_hdr_of (session_bytes bs)) \<noteq> 2 \<longrightarrow>
            snd (open self bs) = Inl (RuntimeError (''Invalid byte-depth: '' @
              str_nat (unat (sh_byte_depth (sess_hdr_of (session_bytes bs)))))))"
proof -
  from assms have len: "72 \<le> length bs" and m8: "take 8 bs = DCIMG @ [0, 0, 0]"
    and sb: "length (session_bytes bs) = 80"
    by (simp_all add: headers_present_def)
  have fs: "fromstring 80 sess_hdr_of (session_bytes bs) = Inr [sess_hdr_of (session_bytes bs)]"
    using sb by (intro fromstring_one) simp_all
  have op: "open self bs =
      set_dtype ((after_file_header self bs)\<lparr>sess_header := Some [sess_hdr_of (session_bytes bs)]\<rparr>)"
    using open_long [OF magic8(1) [OF m8] len, of self] magic8(2) [OF m8] fs
    by (simp add: session_bytes_def)
  show ?thesis
    unfolding op by (simp add: set_dtype_def byte_depth_def)
qed

text \<open>Claim C9, as amended. A file whose 8-byte magic field is \<open>DCIMG\<close> followed by
  three NUL bytes passes both magic checks: \<open>open\<close> keeps the mapping open and never
  raises \<^verbatim>\<open>RuntimeError('Invalid DCIMG file')\<close>.\<close>

theorem nul_padded_magic_accepted:
  assumes "take 8 bs = DCIMG @ [0, 0, 0]"
  shows "snd (open self bs) \<noteq> Inl (RuntimeError ''Invalid DCIMG file'') \<and>
         mm (fst (open self bs)) = Some \<lparr>buf = bs, closed = False\<rparr>"
proof (cases "length bs < 72")
  case True
  then show ?thesis using open_short [OF magic8(1) [OF assms] True, of self] by auto
next
  case False
  then have len: "72 \<le> length bs" by simp
  note op = open_long [OF magic8(1) [OF assms] len, of self]
  show ?thesis
  proof (cases "fromstring 80 sess_hdr_of (take 80 (drop (unat (u4 (take 72 bs) 40)) bs))")
    case (Inl e)
    then obtain msg where "e = ValueError msg" using fromstring_error by blast
    then show ?thesis using op Inl magic8(2) [OF assms]
      by (simp add: after_file_header_def)
  next
    case (Inr sh)
    then show ?thesis using op magic8(2) [OF assms]
      by (simp add: set_dtype_not_magic after_file_header_def)
  qed
qed

text \<open>Claim C9 as stated fails: with a space as the first padding byte the magic field is
  still \<open>DCIMG\<close> followed by three bytes, and \<^verbatim>\<open>_parse_header\<close> rejects it, because
  the \<^verbatim>\<open>S8\<close> field is compared with \<^verbatim>\<open>b'DCIMG'\<close> as a whole.\<close>

theorem padded_magic_rejected:
  "take 8 (sample_file[5 := 32]) = DCIMG @ [32, 0, 0] \<and>
   snd (open init (sample_file[5 := 32])) = Inl (RuntimeError ''Invalid DCIMG file'')"
  by code_simp

text \<open>Claim C3 at a failing input. With the first byte of the magic altered, \<open>open\<close>
  closes the mapping and goes on to \<^verbatim>\<open>_parse_header\<close>, whose first read of the closed
  mapping raises \<^verbatim>\<open>ValueError\<close>, not the \<^verbatim>\<open>RuntimeError\<close> that \<^verbatim>\<open>_parse_header\<close>
  has for a wrong magic. The session header is not parsed.\<close>

theorem bad_magic_raises_ValueError:
  "snd (open init (sample_file[0 := 88])) = Inl (ValueError ''mmap closed or invalid'') \<and>
   sess_header (fst (open init (sample_file[0 := 88]))) = None"
  by code_simp

text \<open>Claim C5 at two failing inputs: \<open>bytes_per_row = 5\<close> with a byte depth of 1 and 4
  rows, and \<open>bytes_per_img = 17\<close> with 4 rows of 4 bytes. Formatting the message raises
  \<^verbatim>\<open>KeyError\<close> before \<^verbatim>\<open>RuntimeError\<close> can be raised.\<close>

theorem size_mismatch_raises_KeyError:
  "snd (open init (sample_file[120 := 5])) = Inl (KeyError ''bytes_per_row'') \<and>
   snd (open init (sample_file[128 := 17])) = Inl (KeyError ''bytes_per_img'')"
  by code_simp

text \<open>The three cases of C6 on the small file and on two variants of its byte depth.\<close>

theorem byte_depth_selects_dtype_witness:
  "headers_present sample_file \<and>
   sh_byte_depth (sess_hdr_of (session_bytes sample_file)) = 1 \<and>
   dtype (fst (open init sample_file)) = Some uint8 \<and>
   headers_present (sample_file[108 := 2]) \<and>
   sh_byte_depth (sess_hdr_of (session_bytes (sample_file[108 := 2]))) = 2 \<and>
   dtype (fst (open init (sample_file[108 := 2]))) = Some uint16 \<and>
   headers_present (sample_file[108 := 3]) \<and>
   sh_byte_depth (sess_hdr_of (session_bytes (sample_file[108 := 3]))) = 3 \<and>
   snd (open init (sample_file[108 := 3])) = Inl (RuntimeError ''Invalid byte-depth: 3'')"
proof -
  have h1: "headers_present sample_file" by code_simp
  have b1: "sh_byte_depth (sess_hdr_of (session_bytes sample_file)) = 1" by code_simp
  have h2: "headers_present (sample_file[108 := 2])" by code_simp
  have b2: "sh_byte_depth (sess_hdr_of (session_bytes (sample_file[108 := 2]))) = 2" by code_simp
  have h3: "headers_present (sample_file[108 := 3])" by code_simp
  have b3: "sh_byte_depth (sess_hdr_of (session_bytes (sample_file[108 := 3]))) = 3" by code_simp
  have s3: "str_nat 3 = ''3''" by (simp add: str_nat.simps)
  from byte_depth_selects_dtype [OF h1, of init] b1
  have r1: "dtype (fst (open init sample_file)) = Some uint8" by simp
  from byte_depth_selects_dtype [OF h2, of init] b2
  have r2: "dtype (fst (open init (sample_file[108 := 2]))) = Some uint16" by simp
  from byte_depth_selects_dtype [OF h3, of init] b3 s3
  have r3: "snd (open init (sample_file[108 := 3])) = Inl (RuntimeError ''Invalid byte-depth: 3'')"
    by simp
  show ?thesis using h1 b1 r1 h2 b2 r2 h3 b3 r3 by blast
qed

text \<open>The small file has such a magic field.\<close>

theorem nul_padded_magic_accepted_witness:
  "take 8 sample_file = DCIMG @ [0, 0, 0] \<and>
   snd (open init sample_file) \<noteq> Inl (RuntimeError ''Invalid DCIMG file'') \<and>
   mm (fst (open init sample_file)) = Some \<lparr>buf = sample_file, closed = False\<rparr>"
proof -
  have h: "take 8 sample_file = DCIMG @ [0, 0, 0]" by code_simp
  show ?thesis using h nul_padded_magic_accepted [OF h, of init] by blast
qed

section \<open>The handles of the small files\<close>

lemma sample_eq:
  "sample = \<lparr>mm = Some \<lparr>buf = sample_file, closed = False\<rparr>,
             file_header = Some [sample_fh], sess_header = Some [sample_sh],
             dtype = Some uint8\<rparr>"
  by code_simp


lemma sample_valid: "valid_handle sample"
  by (simp add: sample_eq valid_handle_def sample_sh_def)

lemma sample_file_header: "file_header sample = Some [sample_fh]"
  by (simp add: sample_eq)

lemma sample_sess_header: "sess_header sample = Some [sample_sh]"
  by (simp add: sample_eq)

lemma sample_mm: "mm sample = Some \<lparr>buf = sample_file, closed = False\<rparr>"
  by (simp add: sample_eq)

lemma sample_dtype: "dtype sample = Some uint8"
  by (simp add: sample_eq)

lemma length_sample_file: "length sample_file = 568"
  by code_simp

lemma sample_footer_offset: "spec_footer_offset sample_fh sample_sh = 264"
  by code_simp







lemma valid_handleD:
  assumes "valid_handle self"
  obtains m fh sh where "mm self = Some m" "\<not> closed m" "file_header self = Some [fh]"
    "sess_header self = Some [sh]"
    "sh_byte_depth sh = 1 \<and> dtype self = Some uint8 \<or> sh_byte_depth sh = 2 \<and> dtype self = Some uint16"
    "sh_bytes_per_row sh = sh_byte_depth sh * sh_ysize sh"
    "sh_bytes_per_img sh = sh_bytes_per_row sh * sh_ysize sh"
  using assms
  by (auto simp: valid_handle_def split: option.splits list.splits if_splits)

section \<open>Timestamps, one per frame\<close>







section \<open>Shapes\<close>

lemma np_ndarray_shape:
  "np_ndarray shp dt mo offset = Inr a \<Longrightarrow> nd_shape a = shp"
  by (auto simp: np_ndarray_def Let_def split: option.splits if_splits)

lemma astype_shape [simp]: "nd_shape (astype mo a d) = nd_shape a"
  by (auto simp: astype_def split: nd_memory.splits option.splits)

text \<open>The body of \<open>layer\<close> once the header arrays hold one record each.\<close>

lemma layer_eq:
  assumes "file_header self = Some [fh]" "sess_header self = Some [sh]"
  shows "layer self index fpl d =
     raising (np_ndarray [fpl, unat (sh_ysize sh), unat (sh_xsize sh)] (dtype self) (mm self)
                (spec_pixel_offset sh index fpl)) self (\<lambda>a.
       case corner_loop a (dtype self) (4 * unat (sh_byte_depth sh)) (mm self)
              (spec_corner_offset fh sh index fpl 0) 0 fpl of
         (mo, Inl e) \<Rightarrow> (self\<lparr>mm := mo\<rparr>, Inl e)
       | (mo, Inr u) \<Rightarrow>
           (case d of
              None \<Rightarrow> (self\<lparr>mm := mo\<rparr>, Inr a)
            | Some d' \<Rightarrow> (self\<lparr>mm := mo\<rparr>, Inr (astype mo a d'))))"
  using assms
  by (simp add: layer_def Let_def bytes_per_img_def ysize_def xsize_def nfrms_def byte_depth_def
      session_footer_offset_def header_size_def spec_pixel_offset_def spec_corner_offset_def
      spec_footer_offset_def mult.assoc)

lemma layer_shape:
  assumes "file_header self = Some [fh]" "sess_header self = Some [sh]"
    and "layer self index fpl d = (self', Inr a)"
  shows "nd_shape a = [fpl, unat (sh_ysize sh), unat (sh_xsize sh)]"
proof (cases "np_ndarray [fpl, unat (sh_ysize sh), unat (sh_xsize sh)] (dtype self) (mm self)
                (spec_pixel_offset sh index fpl)")
  case (Inl e)
  then show ?thesis using assms(3) unfolding layer_eq [OF assms(1,2)] by simp
next
  case (Inr a0)
  obtain mo r where cl: "corner_loop a0 (dtype self) (4 * unat (sh_byte_depth sh)) (mm self)
              (spec_corner_offset fh sh index fpl 0) 0 fpl = (mo, r)"
    by (cases "corner_loop a0 (dtype self) (4 * unat (sh_byte_depth sh)) (mm self)
              (spec_corner_offset fh sh index fpl 0) 0 fpl")
  from assms(3) have "a = a0 \<or> (\<exists>d'. a = astype mo a0 d')"
    unfolding layer_eq [OF assms(1,2)] Inr
    by (cases r; cases d) (auto simp: cl)
  then show ?thesis using np_ndarray_shape [OF Inr] by auto
qed

text \<open>Claim C10. On an open handle with valid headers, \<open>shape\<close> is
  \<open>(nfrms, xsize, ysize)\<close>, and every array that \<open>layer\<close> returns has the shape
  \<open>(frames_per_layer, ysize, xsize)\<close>: the two spatial axes are in the opposite
  order.\<close>

theorem shape_is_transposed:
  assumes "valid_handle self" "sess_header self = Some [sh]"
  shows "shape self = Inr (sh_nfrms sh, sh_xsize sh, sh_ysize sh) \<and>
     (\<forall>index fpl d self' a. layer self index fpl d = (self', Inr a) \<longrightarrow>
        nd_shape a = [fpl, unat (sh_ysize sh), unat (sh_xsize sh)])"
proof -
  from assms(1) obtain fh where fh: "file_header self = Some [fh]"
    by (auto elim: valid_handleD)
  have "shape self = Inr (sh_nfrms sh, sh_xsize sh, sh_ysize sh)"
    using assms(2) by (simp add: shape_def nfrms_def xsize_def ysize_def)
  then show ?thesis using layer_shape [OF fh assms(2)] by blast
qed

lemma sample_layer_0_2:
  "snd (layer sample 0 2 None) =
     Inr \<lparr>nd_shape = [2, 4, 4], nd_dtype = uint8, nd_data = Mapped 232\<rparr>"
  unfolding sample_eq by code_simp

text \<open>C10 on the small file.\<close>

theorem shape_is_transposed_witness:
  "valid_handle sample \<and> sess_header sample = Some [sample_sh] \<and>
   shape sample = Inr (2, 4, 4) \<and>
   layer sample 0 2 None =
     (fst (layer sample 0 2 None),
      Inr \<lparr>nd_shape = [2, 4, 4], nd_dtype = uint8, nd_data = Mapped 232\<rparr>) \<and>
   nd_shape \<lparr>nd_shape = [2, 4, 4], nd_dtype = uint8, nd_data = Mapped 232\<rparr> =
     [2, unat (sh_ysize sample_sh), unat (sh_xsize sample_sh)]"
proof -
  have l: "layer sample 0 2 None =
     (fst (layer sample 0 2 None),
      Inr \<lparr>nd_shape = [2, 4, 4], nd_dtype = uint8, nd_data = Mapped 232\<rparr>)"
    by (simp add: prod_eq_iff sample_layer_0_2)
  note t = shape_is_transposed [OF sample_valid sample_sess_header]
  have s: "shape sample = Inr (2, 4, 4)"
    using conjunct1 [OF t] by (simp add: sample_sh_def)
  have n: "nd_shape \<lparr>nd_shape = [2, 4, 4], nd_dtype = uint8, nd_data = Mapped 232\<rparr> =
     [2, unat (sh_ysize sample_sh), unat (sh_xsize sample_sh)]"
    using conjunct2 [OF t] l by blast
  show ?thesis
    by (intro conjI) (rule sample_valid sample_sess_header s l n)+
qed

lemma sample_frame_dtype:
  "snd (frame sample 0 (Some uint16)) = Inl (TypeError ''an integer is required for the axis'')"
  unfolding sample_eq by code_simp

lemma sample_layer_dtype:
  "snd (layer sample 0 1 (Some uint16)) =
     Inr \<lparr>nd_shape = [1, 4, 4], nd_dtype = uint16,
          nd_data = Converted uint8 [11, 12, 13, 14, 0, 15, 16, 17, 18, 19, 20, 21, 22, 23, 24, 25]\<rparr>"
  unfolding sample_eq by code_simp

lemma single_row_eq:
  "single_row = \<lparr>mm = Some \<lparr>buf = sample_file[120 := 1, 124 := 1, 128 := 1], closed = False\<rparr>,
                 file_header = Some [sample_fh],
                 sess_header = Some [sample_sh\<lparr>sh_bytes_per_row := 1, sh_ysize := 1,
                                               sh_bytes_per_img := 1\<rparr>],
                 dtype = Some uint8\<rparr>"
  by code_simp

lemma single_row_frame:
  "snd (frame single_row 0 None) = Inr \<lparr>nd_shape = [4], nd_dtype = uint8, nd_data = Mapped 232\<rparr>"
  unfolding single_row_eq by code_simp

text \<open>Claim C7 at two failing inputs. With a target type, \<open>frame\<close> raises
  \<^verbatim>\<open>TypeError\<close> where \<open>layer\<close> returns the converted array, because the type reaches
  \<^verbatim>\<open>np.squeeze\<close> as its axis. In a file with one row per frame, \<open>frame\<close> without a
  target type returns shape \<open>(xsize)\<close>, not \<open>(ysize, xsize)\<close>, because every axis
  of length 1 is removed.\<close>

theorem frame_with_dtype_raises:
  "snd (frame sample 0 (Some uint16)) = Inl (TypeError ''an integer is required for the axis'') \<and>
   snd (layer sample 0 1 (Some uint16)) =
     Inr \<lparr>nd_shape = [1, 4, 4], nd_dtype = uint16,
          nd_data = Converted uint8 [11, 12, 13, 14, 0, 15, 16, 17, 18, 19, 20, 21, 22, 23, 24, 25]\<rparr> \<and>
   valid_handle single_row \<and> ysize single_row = Inr 1 \<and> xsize single_row = Inr 4 \<and>
   snd (frame single_row 0 None) =
     Inr \<lparr>nd_shape = [4], nd_dtype = uint8, nd_data = Mapped 232\<rparr>"
proof -
  have v: "valid_handle single_row"
    by (simp add: single_row_eq valid_handle_def sample_sh_def)
  have y: "ysize single_row = Inr 1" by (simp add: single_row_eq ysize_def)
  have x: "xsize single_row = Inr 4" by (simp add: single_row_eq xsize_def sample_sh_def)
  show ?thesis
    by (intro conjI) (rule sample_frame_dtype sample_layer_dtype v y x single_row_frame)+
qed

section \<open>The loop of layer\<close>

lemma length_write_bytes:
  "pos + length src \<le> length b \<Longrightarrow> length (write_bytes b pos src) = length b"
  by (simp add: write_bytes_def)

lemma nth_write_bytes:
  assumes "pos + length src \<le> length b" "p < length b"
  shows "write_bytes b pos src ! p =
     (if pos \<le> p \<and> p < pos + length src then src ! (p - pos) else b ! p)"
  using assms by (auto simp: write_bytes_def nth_append)

lemma take_drop_nth:
  "index + q < length b \<Longrightarrow> q < n \<Longrightarrow> take n (drop index b) ! q = b ! (index + q)"
  by simp

lemma take_drop_eq_map:
  "pos + n \<le> length b \<Longrightarrow> take n (drop pos b) = map (\<lambda>q. b ! (pos + q)) [0..<n]"
  by (rule nth_equalityI) simp_all

lemma elem_at_cong:
  assumes "pos + itemsize d \<le> length b" "pos' + itemsize d \<le> length b'"
    and "\<And>q. q < itemsize d \<Longrightarrow> b ! (pos + q) = b' ! (pos' + q)"
  shows "elem_at b d pos = elem_at b' d pos'"
proof -
  have eq: "map (\<lambda>q. b ! (pos + q)) [0..<itemsize d] = map (\<lambda>q. b' ! (pos' + q)) [0..<itemsize d]"
    using assms(3) by simp
  show ?thesis
    unfolding elem_at_def take_drop_eq_map [OF assms(1)] take_drop_eq_map [OF assms(2)] eq
    by (rule refl)
qed


text \<open>The loop of \<open>layer\<close> on a view of \<open>n0\<close> frames of \<open>F\<close> bytes at \<open>off\<close>, when the
  table it reads lies behind the view.\<close>

lemma corner_loop_ok:
  fixes a :: ndarray and m :: mmap
  defines "isz \<equiv> itemsize (nd_dtype a)"
  assumes a: "nd_shape a = [n0, n1, n2]" "nd_data a = Mapped off" "nd_dtype a = dt"
    and dims: "1 \<le> n1" "4 \<le> n2"
    and op: "\<not> closed m"
    and cnt: "i + k \<le> n0"
    and blk: "off + n0 * (isz * (n1 * n2)) \<le> length (buf m)"
    and behind: "off + n0 * (isz * (n1 * n2)) \<le> index"
    and src: "\<forall>j<k. index + step * j + 4 * isz \<le> length (buf m)"
  shows "\<exists>m'. corner_loop a (Some dt) step (Some m) index i k = (Some m', Inr ()) \<and>
     \<not> closed m' \<and> length (buf m') = length (buf m) \<and>
     (\<forall>j<k. \<forall>q<4 * isz.
        buf m' ! (off + (i + j) * (isz * (n1 * n2)) + q) = buf m ! (index + step * j + q)) \<and>
     (\<forall>p<length (buf m).
        (\<forall>j<k. \<not> (off + (i + j) * (isz * (n1 * n2)) \<le> p \<and>
                    p < off + (i + j) * (isz * (n1 * n2)) + 4 * isz)) \<longrightarrow>
        buf m' ! p = buf m ! p)"
  using op cnt blk behind src
proof (induction k arbitrary: m index i)
  case 0
  then show ?case by simp
next
  case (Suc k)
  define F where "F = isz * (n1 * n2)"
  have F4: "4 * isz \<le> F"
  proof -
    have "4 \<le> n1 * n2" using dims by (metis mult_le_mono nat_mult_1)
    then show ?thesis unfolding F_def by simp
  qed
  have i_lt: "i < n0" using Suc.prems(2) by simp
  have iF: "i * F + F \<le> n0 * F"
  proof -
    have "Suc i * F \<le> n0 * F" using i_lt by (intro mult_le_mono1) simp
    then show ?thesis by simp
  qed
  have blk': "off + n0 * F \<le> length (buf m)" and behind': "off + n0 * F \<le> index"
    using Suc.prems(3,4) by (simp_all add: F_def)
  have src0: "index + 4 * isz \<le> length (buf m)"
    using Suc.prems(5) by (elim allE [of _ 0]) simp
  have dst_ok: "off + i * F + 4 * isz \<le> length (buf m)"
    using iF F4 blk' by linarith
  define srcb where "srcb = take (4 * isz) (drop index (buf m))"
  have len_src: "length srcb = 4 * isz" using src0 by (simp add: srcb_def)
  define m1 where "m1 = m\<lparr>buf := write_bytes (buf m) (off + i * F) srcb\<rparr>"
  have len1: "length (buf m1) = length (buf m)"
    using dst_ok by (simp add: m1_def length_write_bytes len_src)
  have nth1: "\<And>p. p < length (buf m) \<Longrightarrow>
      buf m1 ! p = (if off + i * F \<le> p \<and> p < off + i * F + 4 * isz
                    then buf m ! (index + (p - (off + i * F))) else buf m ! p)"
  proof -
    fix p assume p: "p < length (buf m)"
    have "buf m1 ! p = (if off + i * F \<le> p \<and> p < off + i * F + length srcb
                        then srcb ! (p - (off + i * F)) else buf m ! p)"
      using dst_ok p by (simp add: m1_def nth_write_bytes len_src)
    moreover have "srcb ! (p - (off + i * F)) = buf m ! (index + (p - (off + i * F)))"
      if "off + i * F \<le> p" "p < off + i * F + 4 * isz"
      using that src0 by (simp add: srcb_def)
    ultimately show "buf m1 ! p = (if off + i * F \<le> p \<and> p < off + i * F + 4 * isz
                    then buf m ! (index + (p - (off + i * F))) else buf m ! p)"
      by (simp add: len_src)
  qed
  have step1: "corner_loop a (Some dt) step (Some m) index i (Suc k) =
      corner_loop a (Some dt) step (Some m1) (index + step) (Suc i) k"
    using Suc.prems(1) src0 a dims i_lt
    by (simp add: np_ndarray_def setitem_row0_def Let_def isz_def m1_def srcb_def F_def
        mult.assoc mult.left_commute)
  have "\<exists>m'. corner_loop a (Some dt) step (Some m1) (index + step) (Suc i) k = (Some m', Inr ()) \<and>
     \<not> closed m' \<and> length (buf m') = length (buf m1) \<and>
     (\<forall>j<k. \<forall>q<4 * isz.
        buf m' ! (off + (Suc i + j) * (isz * (n1 * n2)) + q) = buf m1 ! (index + step + step * j + q)) \<and>
     (\<forall>p<length (buf m1).
        (\<forall>j<k. \<not> (off + (Suc i + j) * (isz * (n1 * n2)) \<le> p \<and>
                    p < off + (Suc i + j) * (isz * (n1 * n2)) + 4 * isz)) \<longrightarrow>
        buf m' ! p = buf m1 ! p)"
  proof (rule Suc.IH)
    show "\<not> closed m1" using Suc.prems(1) by (simp add: m1_def)
    show "Suc i + k \<le> n0" using Suc.prems(2) by simp
    show "off + n0 * (isz * (n1 * n2)) \<le> length (buf m1)" using Suc.prems(3) len1 by simp
    show "off + n0 * (isz * (n1 * n2)) \<le> index + step" using Suc.prems(4) by simp
    show "\<forall>j<k. index + step + step * j + 4 * isz \<le> length (buf m1)"
    proof (intro allI impI)
      fix j assume "j < k"
      then have "index + step * Suc j + 4 * isz \<le> length (buf m)"
        using Suc.prems(5) by (elim allE [of _ "Suc j"]) simp
      then show "index + step + step * j + 4 * isz \<le> length (buf m1)"
        using len1 by (simp add: add.assoc)
    qed
  qed
  then obtain m' where
    r: "corner_loop a (Some dt) step (Some m1) (index + step) (Suc i) k = (Some m', Inr ())"
    and c: "\<not> closed m'" and l: "length (buf m') = length (buf m1)"
    and A: "\<And>j q. j < k \<Longrightarrow> q < 4 * isz \<Longrightarrow>
        buf m' ! (off + (Suc i + j) * F + q) = buf m1 ! (index + step + step * j + q)"
    and B: "\<And>p. p < length (buf m1) \<Longrightarrow>
        (\<forall>j<k. \<not> (off + (Suc i + j) * F \<le> p \<and> p < off + (Suc i + j) * F + 4 * isz)) \<Longrightarrow>
        buf m' ! p = buf m1 ! p"
    unfolding F_def by blast
  have later: "off + i * F + 4 * isz \<le> off + (Suc i + j) * F" for j
  proof -
    have "(Suc i + j) * F = i * F + F + j * F" by (simp add: add_mult_distrib)
    then show ?thesis using F4 by linarith
  qed
  have goalA: "buf m' ! (off + (i + j) * F + q) = buf m ! (index + step * j + q)"
    if "j < Suc k" "q < 4 * isz" for j q
  proof (cases j)
    case 0
    have p: "off + i * F + q < length (buf m)" using dst_ok that(2) by linarith
    have "buf m' ! (off + i * F + q) = buf m1 ! (off + i * F + q)"
    proof (rule B)
      show "off + i * F + q < length (buf m1)" using p len1 by simp
      show "\<forall>j<k. \<not> (off + (Suc i + j) * F \<le> off + i * F + q \<and>
                        off + i * F + q < off + (Suc i + j) * F + 4 * isz)"
      proof (intro allI impI)
        fix j assume "j < k"
        have "off + i * F + 4 * isz \<le> off + (Suc i + j) * F" by (rule later)
        then show "\<not> (off + (Suc i + j) * F \<le> off + i * F + q \<and>
                        off + i * F + q < off + (Suc i + j) * F + 4 * isz)"
          using that(2) by linarith
      qed
    qed
    also have "\<dots> = buf m ! (index + q)"
      using nth1 [OF p] that(2) by simp
    finally show ?thesis using 0 by simp
  next
    case (Suc j')
    then have j': "j' < k" using that(1) by simp
    have pos: "index + step * Suc j' + 4 * isz \<le> length (buf m)"
      using Suc.prems(5) that(1) Suc by blast
    have p: "index + step + step * j' + q < length (buf m)" using pos that(2) by simp
    have out: "\<not> (off + i * F \<le> index + step + step * j' + q \<and>
                   index + step + step * j' + q < off + i * F + 4 * isz)"
      using behind' iF F4 by linarith
    have "buf m' ! (off + (Suc i + j') * F + q) = buf m1 ! (index + step + step * j' + q)"
      using A [OF j' that(2)] .
    also have "\<dots> = buf m ! (index + step + step * j' + q)"
      using nth1 [OF p] out by simp
    finally show ?thesis using Suc by (simp add: add.assoc)
  qed
  have goalB: "buf m' ! p = buf m ! p"
    if "p < length (buf m)"
      "\<forall>j<Suc k. \<not> (off + (i + j) * F \<le> p \<and> p < off + (i + j) * F + 4 * isz)" for p
  proof -
    have n0': "\<not> (off + i * F \<le> p \<and> p < off + i * F + 4 * isz)"
      using that(2) by (elim allE [of _ 0]) simp
    have "\<forall>j<k. \<not> (off + (Suc i + j) * F \<le> p \<and> p < off + (Suc i + j) * F + 4 * isz)"
    proof (intro allI impI)
      fix j assume "j < k"
      then show "\<not> (off + (Suc i + j) * F \<le> p \<and> p < off + (Suc i + j) * F + 4 * isz)"
        using that(2) by (elim allE [of _ "Suc j"]) simp
    qed
    then have "buf m' ! p = buf m1 ! p" using B that(1) len1 by simp
    also have "\<dots> = buf m ! p" using nth1 [OF that(1)] n0' by simp
    finally show ?thesis .
  qed
  show ?case
    unfolding step1
  proof (intro exI [of _ m'] conjI)
    show "corner_loop a (Some dt) step (Some m1) (index + step) (Suc i) k = (Some m', Inr ())"
      by (rule r)
    show "\<not> closed m'" by (rule c)
    show "length (buf m') = length (buf m)" using l len1 by simp
    show "\<forall>j<Suc k. \<forall>q<4 * isz.
        buf m' ! (off + (i + j) * (isz * (n1 * n2)) + q) = buf m ! (index + step * j + q)"
      using goalA unfolding F_def by blast
    show "\<forall>p<length (buf m).
        (\<forall>j<Suc k. \<not> (off + (i + j) * (isz * (n1 * n2)) \<le> p \<and>
                    p < off + (i + j) * (isz * (n1 * n2)) + 4 * isz)) \<longrightarrow>
        buf m' ! p = buf m ! p"
      using goalB unfolding F_def by blast
  qed
qed

lemma valid_itemsize:
  assumes "valid_handle self" "sess_header self = Some [sh]" "dtype self = Some dt"
  shows "itemsize dt = unat (sh_byte_depth sh)"
  using assms by (auto elim!: valid_handleD)

lemma elem_index_split:
  "(i * n1 + y) * n2 + x = i * (n1 * n2) + (y * n2 + x)" for i :: nat
  by (simp add: add_mult_distrib mult.assoc)

lemma row_index_less:
  fixes y :: nat
  assumes "y < n1" "x < n2"
  shows "y * n2 + x < n1 * n2"
proof -
  have "y * n2 + x < Suc y * n2" using assms(2) by simp
  also have "\<dots> \<le> n1 * n2" using assms(1) by (intro mult_le_mono1) simp
  finally show ?thesis .
qed

lemma byte_in_element:
  fixes q :: nat
  assumes "q < isz" "e < e'"
  shows "isz * e + q < isz * e'"
proof -
  have "isz * e + q < isz * Suc e" using assms(1) by simp
  also have "\<dots> \<le> isz * e'" using assms(2) by (intro mult_le_mono2) simp
  finally show ?thesis .
qed

text \<open>A byte of an element outside the first four of row 0 lies in no corner range.\<close>

lemma outside_corners:
  fixes i y x q :: nat
  assumes "y < n1" "x < n2" "\<not> (y = 0 \<and> x < 4)" "q < isz" "4 \<le> n2"
  shows "\<not> (off + j * (isz * (n1 * n2)) \<le> off + isz * ((i * n1 + y) * n2 + x) + q \<and>
            off + isz * ((i * n1 + y) * n2 + x) + q < off + j * (isz * (n1 * n2)) + 4 * isz)"
proof -
  define r where "r = y * n2 + x"
  have r: "r < n1 * n2" unfolding r_def using assms(1,2) by (rule row_index_less)
  have r4: "4 \<le> r"
  proof (cases "y = 0")
    case True
    then show ?thesis using assms(3) by (simp add: r_def)
  next
    case False
    then have "n2 \<le> y * n2" by simp
    then show ?thesis using assms(5) unfolding r_def by linarith
  qed
  have e: "(i * n1 + y) * n2 + x = i * (n1 * n2) + r"
    by (simp add: r_def elem_index_split)
  have pos: "isz * ((i * n1 + y) * n2 + x) = i * (isz * (n1 * n2)) + isz * r"
    unfolding e by (simp add: distrib_left mult.left_commute)
  have jpos: "j * (isz * (n1 * n2)) = isz * (j * (n1 * n2))"
    by (simp add: mult.left_commute)
  have ipos: "i * (isz * (n1 * n2)) = isz * (i * (n1 * n2))"
    by (simp add: mult.left_commute)
  consider "j < i" | "j = i" | "i < j" by linarith
  then show ?thesis
  proof cases
    case 1
    then have "Suc j * (n1 * n2) \<le> i * (n1 * n2)" by (intro mult_le_mono1) simp
    then have "j * (n1 * n2) + 4 \<le> i * (n1 * n2) + r" using r r4 by simp
    then have "isz * (j * (n1 * n2) + 4) \<le> isz * (i * (n1 * n2) + r)"
      by (rule mult_le_mono2)
    then have "j * (isz * (n1 * n2)) + 4 * isz \<le> isz * ((i * n1 + y) * n2 + x)"
      unfolding e by (simp add: distrib_left mult.left_commute mult.commute)
    then show ?thesis by linarith
  next
    case 2
    have "isz * 4 \<le> isz * r" using r4 by (rule mult_le_mono2)
    then have "4 * isz \<le> isz * r" by (simp only: mult.commute)
    then show ?thesis unfolding pos 2 by linarith
  next
    case 3
    then have "Suc i * (n1 * n2) \<le> j * (n1 * n2)" by (intro mult_le_mono1) simp
    then have lt: "i * (n1 * n2) + r < j * (n1 * n2)" using r by simp
    have "isz * (i * (n1 * n2) + r) + q < isz * (j * (n1 * n2))"
      using assms(4) lt by (rule byte_in_element)
    then have "isz * ((i * n1 + y) * n2 + x) + q < j * (isz * (n1 * n2))"
      unfolding e jpos .
    then show ?thesis by linarith
  qed
qed

lemma elem_in_block:
  fixes i :: nat
  assumes "i < n0" "y < n1" "x < n2"
  shows "(i * n1 + y) * n2 + x < n0 * (n1 * n2)"
proof -
  have "(i * n1 + y) * n2 + x = i * (n1 * n2) + (y * n2 + x)" by (rule elem_index_split)
  also have "\<dots> < i * (n1 * n2) + n1 * n2" using row_index_less [OF assms(2,3)] by simp
  also have "\<dots> = Suc i * (n1 * n2)" by simp
  also have "\<dots> \<le> n0 * (n1 * n2)" using assms(1) by (intro mult_le_mono1) simp
  finally show ?thesis .
qed

lemma valid_handle_mm_update:
  assumes "valid_handle self" "\<not> closed m'"
  shows "valid_handle (self\<lparr>mm := Some m'\<rparr>)"
  using assms by (auto simp: valid_handle_def split: option.splits list.splits)

text \<open>Claim C1, as amended. On an open handle with valid headers whose frames have
  at least one row and four columns, let a layer be requested whose pixel block ends at
  or before the session footer and whose entries in the footer table of first pixels lie
  inside the mapping. Then \<open>layer\<close> returns the view of shape
  \<open>(frames_per_layer, ysize, xsize)\<close> in the native type at byte
  \<open>232 + bytes_per_img * frames_per_layer * index\<close>; in the mapping as the call leaves
  it, elements \<open>[i, 0, 0..4)\<close> of the view are the four native values stored at
  \<open>session_footer_offset + 272 + nfrms * (4 + 8) + 4 * byte_depth * (index * frames_per_layer + i)\<close>
  in the mapping as it was, and every other element of the view is unchanged.\<close>

theorem layer_restores_first_pixels:
  assumes v: "valid_handle self"
    and fh: "file_header self = Some [fh]" and sh: "sess_header self = Some [sh]"
    and mm: "mm self = Some m" and dt: "dtype self = Some dt"
    and dims: "1 \<le> unat (sh_ysize sh)" "4 \<le> unat (sh_xsize sh)"
    and blk: "spec_pixel_offset sh index fpl +
              itemsize dt * (fpl * (unat (sh_ysize sh) * unat (sh_xsize sh)))
                \<le> spec_footer_offset fh sh"
    and tbl: "spec_corner_offset fh sh index fpl fpl \<le> length (buf m)"
  shows "\<exists>m'. layer self index fpl None =
           (self\<lparr>mm := Some m'\<rparr>, Inr (spec_layer_view sh dt index fpl)) \<and>
     valid_handle (self\<lparr>mm := Some m'\<rparr>) \<and> length (buf m') = length (buf m) \<and>
     (\<forall>i<fpl. \<forall>x<4.
        elem_at (buf m') dt (item_offset (spec_layer_view sh dt index fpl) i 0 x) =
        elem_at (buf m) dt (spec_corner_offset fh sh index fpl i + itemsize dt * x)) \<and>
     (\<forall>i<fpl. \<forall>y<unat (sh_ysize sh). \<forall>x<unat (sh_xsize sh). \<not> (y = 0 \<and> x < 4) \<longrightarrow>
        elem_at (buf m') dt (item_offset (spec_layer_view sh dt index fpl) i y x) =
        elem_at (buf m) dt (item_offset (spec_layer_view sh dt index fpl) i y x))"
proof -
  define ys where "ys = unat (sh_ysize sh)"
  define xs where "xs = unat (sh_xsize sh)"
  define bd where "bd = unat (sh_byte_depth sh)"
  define off where "off = spec_pixel_offset sh index fpl"
  define P0 where "P0 = spec_corner_offset fh sh index fpl 0"
  define isz where "isz = itemsize dt"
  define F where "F = isz * (ys * xs)"
  define a where "a = spec_layer_view sh dt index fpl"
  have isz_bd: "isz = bd" unfolding isz_def bd_def using v sh dt by (rule valid_itemsize)
  have op: "\<not> closed m" using v mm by (auto elim!: valid_handleD)
  have a_simps: "nd_shape a = [fpl, ys, xs]" "nd_data a = Mapped off" "nd_dtype a = dt"
    by (simp_all add: a_def spec_layer_view_def ys_def xs_def off_def)
  have Pi: "spec_corner_offset fh sh index fpl i = P0 + 4 * bd * i" for i
    by (simp add: spec_corner_offset_def P0_def bd_def distrib_left)
  have foot: "spec_footer_offset fh sh \<le> P0"
    by (simp add: spec_corner_offset_def P0_def)
  have blkF: "off + fpl * F \<le> spec_footer_offset fh sh"
    using blk by (simp add: off_def F_def isz_def ys_def xs_def mult.left_commute)
  have tbl': "P0 + 4 * bd * fpl \<le> length (buf m)" using tbl by (simp add: Pi)
  have behind: "off + fpl * F \<le> P0" using blkF foot by linarith
  have inbuf: "off + fpl * F \<le> length (buf m)" using behind tbl' by linarith
  have srcs: "P0 + 4 * bd * j + 4 * isz \<le> length (buf m)" if "j < fpl" for j
  proof -
    have "4 * bd * Suc j \<le> 4 * bd * fpl" using that by (intro mult_le_mono2) simp
    then show ?thesis using tbl' isz_bd by simp
  qed
  have nd: "np_ndarray [fpl, ys, xs] (Some dt) (Some m) off = Inr a"
    using op inbuf
    by (simp add: np_ndarray_def a_def spec_layer_view_def ys_def xs_def off_def F_def isz_def
        mult.left_commute)
  have "\<exists>m'. corner_loop a (Some dt) (4 * bd) (Some m) P0 0 fpl = (Some m', Inr ()) \<and>
     \<not> closed m' \<and> length (buf m') = length (buf m) \<and>
     (\<forall>j<fpl. \<forall>q<4 * itemsize (nd_dtype a).
        buf m' ! (off + (0 + j) * (itemsize (nd_dtype a) * (ys * xs)) + q) =
        buf m ! (P0 + 4 * bd * j + q)) \<and>
     (\<forall>p<length (buf m).
        (\<forall>j<fpl. \<not> (off + (0 + j) * (itemsize (nd_dtype a) * (ys * xs)) \<le> p \<and>
                    p < off + (0 + j) * (itemsize (nd_dtype a) * (ys * xs)) + 4 * itemsize (nd_dtype a))) \<longrightarrow>
        buf m' ! p = buf m ! p)"
  proof (rule corner_loop_ok)
    show "nd_shape a = [fpl, ys, xs]" "nd_data a = Mapped off" "nd_dtype a = dt"
      by (rule a_simps)+
    show "1 \<le> ys" "4 \<le> xs" using dims by (simp_all add: ys_def xs_def)
    show "\<not> closed m" by (rule op)
    show "0 + fpl \<le> fpl" by simp
    show "off + fpl * (itemsize (nd_dtype a) * (ys * xs)) \<le> length (buf m)"
      using inbuf by (simp add: a_simps F_def isz_def)
    show "off + fpl * (itemsize (nd_dtype a) * (ys * xs)) \<le> P0"
      using behind by (simp add: a_simps F_def isz_def)
    show "\<forall>j<fpl. P0 + 4 * bd * j + 4 * itemsize (nd_dtype a) \<le> length (buf m)"
      using srcs by (simp add: a_simps isz_def)
  qed
  then obtain m' where
    cl: "corner_loop a (Some dt) (4 * bd) (Some m) P0 0 fpl = (Some m', Inr ())"
    and c: "\<not> closed m'" and len: "length (buf m') = length (buf m)"
    and A: "\<And>j q. j < fpl \<Longrightarrow> q < 4 * isz \<Longrightarrow> buf m' ! (off + j * F + q) = buf m ! (P0 + 4 * bd * j + q)"
    and B: "\<And>p. p < length (buf m) \<Longrightarrow>
        (\<forall>j<fpl. \<not> (off + j * F \<le> p \<and> p < off + j * F + 4 * isz)) \<Longrightarrow>
        buf m' ! p = buf m ! p"
    unfolding a_simps F_def isz_def by auto
  have lay: "layer self index fpl None = (self\<lparr>mm := Some m'\<rparr>, Inr a)"
    unfolding layer_eq [OF fh sh]
    using nd cl by (simp add: mm dt ys_def xs_def off_def P0_def bd_def)
  have io: "item_offset a i y x = off + isz * ((i * ys + y) * xs + x)" for i y x
    by (simp add: item_offset_def a_simps isz_def)
  have corners: "elem_at (buf m') dt (item_offset a i 0 x) =
        elem_at (buf m) dt (spec_corner_offset fh sh index fpl i + itemsize dt * x)"
    if "i < fpl" "x < 4" for i x
  proof (rule elem_at_cong)
    have x4: "isz * x + isz \<le> 4 * isz"
    proof -
      have "isz * Suc x \<le> isz * 4" using that(2) by (intro mult_le_mono2) simp
      then show ?thesis by (simp add: mult.commute)
    qed
    have iF: "i * F + F \<le> fpl * F"
    proof -
      have "Suc i * F \<le> fpl * F" using that(1) by (intro mult_le_mono1) simp
      then show ?thesis by simp
    qed
    have F4: "4 * isz \<le> F"
    proof -
      have "4 \<le> ys * xs" using dims unfolding ys_def xs_def by (metis mult_le_mono nat_mult_1)
      then have "isz * 4 \<le> isz * (ys * xs)" by (rule mult_le_mono2)
      then show ?thesis by (simp add: F_def mult.commute)
    qed
    have pos: "item_offset a i 0 x = off + i * F + isz * x"
      by (simp add: io F_def distrib_left mult.left_commute mult.assoc)
    have "off + i * F + isz * x + isz \<le> length (buf m)"
      using x4 iF F4 inbuf by linarith
    then show "item_offset a i 0 x + itemsize dt \<le> length (buf m')"
      by (simp add: pos len isz_def)
    have "P0 + 4 * bd * i + isz * x + isz \<le> length (buf m)"
      using srcs [OF that(1)] x4 by linarith
    then show "spec_corner_offset fh sh index fpl i + itemsize dt * x + itemsize dt \<le> length (buf m)"
      by (simp add: Pi isz_def)
    fix q assume q: "q < itemsize dt"
    then have "q < isz" by (simp add: isz_def)
    then have q4: "isz * x + q < 4 * isz" using x4 by linarith
    have "buf m' ! (off + i * F + (isz * x + q)) = buf m ! (P0 + 4 * bd * i + (isz * x + q))"
      using that(1) q4 by (rule A)
    then show "buf m' ! (item_offset a i 0 x + q) =
        buf m ! (spec_corner_offset fh sh index fpl i + itemsize dt * x + q)"
      by (simp add: pos Pi isz_def [symmetric] add.assoc)
  qed
  have others: "elem_at (buf m') dt (item_offset a i y x) = elem_at (buf m) dt (item_offset a i y x)"
    if "i < fpl" "y < ys" "x < xs" "\<not> (y = 0 \<and> x < 4)" for i y x
  proof (rule elem_at_cong)
    have e: "(i * ys + y) * xs + x < fpl * (ys * xs)"
      using that(1,2,3) by (rule elem_in_block)
    have "isz * Suc ((i * ys + y) * xs + x) \<le> isz * (fpl * (ys * xs))"
      using e by (intro mult_le_mono2) simp
    then have inb: "off + isz * ((i * ys + y) * xs + x) + isz \<le> off + fpl * F"
      by (simp add: F_def mult.left_commute)
    have "off + isz * ((i * ys + y) * xs + x) + isz \<le> length (buf m)"
      using inb inbuf by linarith
    then show 1: "item_offset a i y x + itemsize dt \<le> length (buf m')"
      by (simp add: io len isz_def)
    show "item_offset a i y x + itemsize dt \<le> length (buf m)"
      using 1 len by simp
    fix q assume q: "q < itemsize dt"
    then have qi: "q < isz" by (simp add: isz_def)
    have p: "off + isz * ((i * ys + y) * xs + x) + q < length (buf m)"
      using inb inbuf qi by linarith
    have "buf m' ! (off + isz * ((i * ys + y) * xs + x) + q) =
          buf m ! (off + isz * ((i * ys + y) * xs + x) + q)"
    proof (rule B [OF p], intro allI impI)
      fix j assume "j < fpl"
      show "\<not> (off + j * F \<le> off + isz * ((i * ys + y) * xs + x) + q \<and>
                off + isz * ((i * ys + y) * xs + x) + q < off + j * F + 4 * isz)"
        unfolding F_def
        using that(2,3,4) qi dims(2) [folded xs_def] by (rule outside_corners)
    qed
    then show "buf m' ! (item_offset a i y x + q) = buf m ! (item_offset a i y x + q)"
      by (simp add: io)
  qed
  show ?thesis
  proof (intro exI [of _ m'] conjI)
    show "layer self index fpl None = (self\<lparr>mm := Some m'\<rparr>, Inr (spec_layer_view sh dt index fpl))"
      using lay by (simp add: a_def)
    show "valid_handle (self\<lparr>mm := Some m'\<rparr>)" using v c by (rule valid_handle_mm_update)
    show "length (buf m') = length (buf m)" by (rule len)
    show "\<forall>i<fpl. \<forall>x<4.
        elem_at (buf m') dt (item_offset (spec_layer_view sh dt index fpl) i 0 x) =
        elem_at (buf m) dt (spec_corner_offset fh sh index fpl i + itemsize dt * x)"
      using corners unfolding a_def by blast
    show "\<forall>i<fpl. \<forall>y<unat (sh_ysize sh). \<forall>x<unat (sh_xsize sh). \<not> (y = 0 \<and> x < 4) \<longrightarrow>
        elem_at (buf m') dt (item_offset (spec_layer_view sh dt index fpl) i y x) =
        elem_at (buf m) dt (item_offset (spec_layer_view sh dt index fpl) i y x)"
      using others unfolding a_def ys_def xs_def by blast
  qed
qed

lemma sample_first_pixel:
  "elem_at sample_file uint8 (spec_corner_offset sample_fh sample_sh 0 2 1 + itemsize uint8 * 2) = 33"
  by code_simp

lemma sample_other_pixel: "elem_at sample_file uint8 253 = 35"
  by code_simp

lemma sample_marker: "elem_at sample_file uint8 250 = 0"
  by code_simp

text \<open>C1 on the small file, for the layer of its two frames: in frame 1, pixel
  \<open>[0, 2]\<close> (byte 250), which the file overwrites with 0, is the 33 of the footer, and
  pixel \<open>[1, 1]\<close> (byte 253) is the 35 of the pixel block.\<close>

theorem layer_restores_first_pixels_witness:
  "valid_handle sample \<and>
   file_header sample = Some [sample_fh] \<and> sess_header sample = Some [sample_sh] \<and>
   mm sample = Some \<lparr>buf = sample_file, closed = False\<rparr> \<and> dtype sample = Some uint8 \<and>
   elem_at sample_file uint8 250 = 0 \<and>
   (\<exists>m'. layer sample 0 2 None =
            (sample\<lparr>mm := Some m'\<rparr>,
             Inr \<lparr>nd_shape = [2, 4, 4], nd_dtype = uint8, nd_data = Mapped 232\<rparr>) \<and>
          elem_at (buf m') uint8 250 = 33 \<and> elem_at (buf m') uint8 253 = 35)"
proof -
  let ?a = "spec_layer_view sample_sh uint8 0 2"
  let ?m = "\<lparr>buf = sample_file, closed = False\<rparr>"
  have d1: "1 \<le> unat (sh_ysize sample_sh)" by (simp add: sample_sh_def)
  have d2: "4 \<le> unat (sh_xsize sample_sh)" by (simp add: sample_sh_def)
  have blk: "spec_pixel_offset sample_sh 0 2 +
      itemsize uint8 * (2 * (unat (sh_ysize sample_sh) * unat (sh_xsize sample_sh)))
      \<le> spec_footer_offset sample_fh sample_sh"
    unfolding sample_footer_offset by (simp add: spec_pixel_offset_def sample_sh_def)
  have "spec_corner_offset sample_fh sample_sh 0 2 2 = 568"
    unfolding spec_corner_offset_def sample_footer_offset by (simp add: sample_sh_def)
  then have tbl: "spec_corner_offset sample_fh sample_sh 0 2 2 \<le> length (buf ?m)"
    by (simp add: length_sample_file)
  have a: "?a = \<lparr>nd_shape = [2, 4, 4], nd_dtype = uint8, nd_data = Mapped 232\<rparr>"
    by (simp add: spec_layer_view_def spec_pixel_offset_def sample_sh_def)
  have p1: "item_offset ?a 1 0 2 = 250" unfolding a by (simp add: item_offset_def)
  have p2: "item_offset ?a 1 1 1 = 253" unfolding a by (simp add: item_offset_def)
  have b: "buf ?m = sample_file" by simp
  from layer_restores_first_pixels
    [OF sample_valid sample_file_header sample_sess_header sample_mm sample_dtype d1 d2 blk tbl,
     unfolded b]
  obtain m' where l: "layer sample 0 2 None = (sample\<lparr>mm := Some m'\<rparr>, Inr ?a)"
    and c: "\<forall>i<2. \<forall>x<4. elem_at (buf m') uint8 (item_offset ?a i 0 x) =
        elem_at sample_file uint8 (spec_corner_offset sample_fh sample_sh 0 2 i + itemsize uint8 * x)"
    and o: "\<forall>i<2. \<forall>y<unat (sh_ysize sample_sh). \<forall>x<unat (sh_xsize sample_sh).
        \<not> (y = 0 \<and> x < 4) \<longrightarrow>
        elem_at (buf m') uint8 (item_offset ?a i y x) = elem_at sample_file uint8 (item_offset ?a i y x)"
    by blast
  have "elem_at (buf m') uint8 (item_offset ?a 1 0 2) =
        elem_at sample_file uint8 (spec_corner_offset sample_fh sample_sh 0 2 1 + itemsize uint8 * 2)"
    using c by (elim allE [of _ 1] allE [of _ "2::nat"]) simp
  then have r1: "elem_at (buf m') uint8 250 = 33" unfolding p1 sample_first_pixel .
  have y: "(1::nat) < unat (sh_ysize sample_sh)" by (simp add: sample_sh_def)
  have x: "(1::nat) < unat (sh_xsize sample_sh)" by (simp add: sample_sh_def)
  have "elem_at (buf m') uint8 (item_offset ?a 1 1 1) = elem_at sample_file uint8 (item_offset ?a 1 1 1)"
    using o y x by (elim allE [of _ 1] allE [of _ "1::nat"]) simp
  then have r2: "elem_at (buf m') uint8 253 = 35" unfolding p2 sample_other_pixel .
  have "\<exists>m'. layer sample 0 2 None =
            (sample\<lparr>mm := Some m'\<rparr>,
             Inr \<lparr>nd_shape = [2, 4, 4], nd_dtype = uint8, nd_data = Mapped 232\<rparr>) \<and>
          elem_at (buf m') uint8 250 = 33 \<and> elem_at (buf m') uint8 253 = 35"
    using l r1 r2 unfolding a by blast
  then show ?thesis
    using sample_valid sample_file_header sample_sess_header sample_mm sample_dtype sample_marker
    by blast
qed

lemma sample_layer_100:
  "snd (layer sample 100 1 None) = Inl (TypeError ''buffer is too small for requested array'')"
  unfolding sample_eq by code_simp

lemma narrow_eq:
  "narrow = \<lparr>mm = Some \<lparr>buf = sample_file[116 := 2], closed = False\<rparr>,
              file_header = Some [sample_fh], sess_header = Some [sample_sh\<lparr>sh_xsize := 2\<rparr>],
              dtype = Some uint8\<rparr>"
  by code_simp

lemma narrow_layer:
  "snd (layer narrow 0 1 None) =
     Inl (ValueError ''could not broadcast input array from shape (1,1,4)'')"
  unfolding narrow_eq by code_simp

lemma overlapping_eq:
  "overlapping = \<lparr>mm = Some \<lparr>buf = overlapping_file, closed = False\<rparr>,
                   file_header = Some [sample_fh], sess_header = Some [overlapping_sh],
                   dtype = Some uint8\<rparr>"
  by code_simp

lemma overlapping_layer:
  "(case layer overlapping 0 3 None of
      (h', r) \<Rightarrow>
        r = Inr \<lparr>nd_shape = [3, 4, 36], nd_dtype = uint8, nd_data = Mapped 232\<rparr> \<and>
        map_option (\<lambda>m'. elem_at (buf m') uint8
            (item_offset \<lparr>nd_shape = [3, 4, 36], nd_dtype = uint8, nd_data = Mapped 232\<rparr> 2 0 0))
          (mm h') = Some 7)"
  unfolding overlapping_eq by code_simp

lemma overlapping_footer_pixel:
  "elem_at overlapping_file uint8 (spec_corner_offset sample_fh overlapping_sh 0 3 2) = 0"
  by code_simp

text \<open>Claim C1 as stated fails, in three ways. A layer index beyond the file raises
  instead of returning a view. So does every request on a file with valid headers whose
  frames are 2 pixels wide. And where the footer table lies inside the pixel block of
  the layer, a view is returned whose element \<open>[2, 0, 0]\<close> is 7 while the value stored at
  the footer offset of frame 2 is 0: the loop has overwritten that entry with the pixels
  of frame 1 before reading it.\<close>

theorem layer_claim_fails:
  "valid_handle sample \<and>
   snd (layer sample 100 1 None) = Inl (TypeError ''buffer is too small for requested array'') \<and>
   valid_handle narrow \<and> xsize narrow = Inr 2 \<and>
   snd (layer narrow 0 1 None) =
     Inl (ValueError ''could not broadcast input array from shape (1,1,4)'') \<and>
   valid_handle overlapping \<and>
   file_header overlapping = Some [sample_fh] \<and> sess_header overlapping = Some [overlapping_sh] \<and>
   (case layer overlapping 0 3 None of
      (h', r) \<Rightarrow>
        r = Inr \<lparr>nd_shape = [3, 4, 36], nd_dtype = uint8, nd_data = Mapped 232\<rparr> \<and>
        map_option (\<lambda>m'. elem_at (buf m') uint8
            (item_offset \<lparr>nd_shape = [3, 4, 36], nd_dtype = uint8, nd_data = Mapped 232\<rparr> 2 0 0))
          (mm h') = Some 7) \<and>
   elem_at overlapping_file uint8 (spec_corner_offset sample_fh overlapping_sh 0 3 2) = 0"
proof -
  have vn: "valid_handle narrow" by (simp add: narrow_eq valid_handle_def sample_sh_def)
  have xn: "xsize narrow = Inr 2" by (simp add: narrow_eq xsize_def)
  have vo: "valid_handle overlapping"
    by (simp add: overlapping_eq valid_handle_def overlapping_sh_def sample_sh_def)
  have fo: "file_header overlapping = Some [sample_fh]" by (simp add: overlapping_eq)
  have so: "sess_header overlapping = Some [overlapping_sh]" by (simp add: overlapping_eq)
  show ?thesis
    by (intro conjI)
       (rule sample_valid sample_layer_100 vn xn narrow_layer vo fo so overlapping_layer
          overlapping_footer_pixel)+
qed

section \<open>Requests beyond the mapped range\<close>











end
